theory Spec2Isabelle
  imports Complex_Main "HOL-Library.Signed_Division" "HOL-Library.AList" "HOL-Library.Word"
begin

section \<open>Vulnerability feed records and the severity histogram\<close>

text \<open>
  The Go type \<open>Severity\<close> is a string with four named constants; a record read
  from the feed may carry any string.
\<close>

type_synonym Severity = string

definition Low :: Severity where "Low = ''low''"
definition Medium :: Severity where "Medium = ''medium''"
definition High :: Severity where "High = ''high''"
definition Critical :: Severity where "Critical = ''critical''"

text \<open>Instants and durations are counted in nanoseconds, as \<open>time.Duration\<close> is.\<close>

type_synonym Time = int
type_synonym Duration = int

record SemverSpec =
  Vulnerable :: "string list"

record Vulnerability =
  Vulnerability_Id :: string
  PackageManager :: string
  PackageName :: string
  Title :: string
  PublicationTime :: Time
  Semver :: SemverSpec
  Vulnerability_Severity :: Severity

text \<open>The four counters are Go \<open>int\<close>s that grow by one per list element.\<close>

record VulnerabilityStats =
  LowCount :: int
  MediumCount :: int
  HighCount :: int
  CriticalCount :: int

definition zero_VulnerabilityStats :: VulnerabilityStats where
  "zero_VulnerabilityStats =
     \<lparr>LowCount = 0, MediumCount = 0, HighCount = 0, CriticalCount = 0\<rparr>"

text \<open>The body of the loop of \<open>GetVulnerabilityStats\<close>: an if/else-if chain with no final else.\<close>

definition count_severity :: "Vulnerability \<Rightarrow> VulnerabilityStats \<Rightarrow> VulnerabilityStats" where
  "count_severity vulnerability stats =
     (let severity = Vulnerability_Severity vulnerability in
      if severity = Low then stats\<lparr>LowCount := LowCount stats + 1\<rparr>
      else if severity = Medium then stats\<lparr>MediumCount := MediumCount stats + 1\<rparr>
      else if severity = High then stats\<lparr>HighCount := HighCount stats + 1\<rparr>
      else if severity = Critical then stats\<lparr>CriticalCount := CriticalCount stats + 1\<rparr>
      else stats)"

definition GetVulnerabilityStats :: "Vulnerability list \<Rightarrow> VulnerabilityStats" where
  "GetVulnerabilityStats vulnerabilities =
     fold count_severity vulnerabilities zero_VulnerabilityStats"

definition bucket_total :: "VulnerabilityStats \<Rightarrow> int" where
  "bucket_total stats =
     LowCount stats + MediumCount stats + HighCount stats + CriticalCount stats"

definition with_severity :: "Severity \<Rightarrow> Vulnerability list \<Rightarrow> Vulnerability list" where
  "with_severity s vulnerabilities =
     filter (\<lambda>v. Vulnerability_Severity v = s) vulnerabilities"

definition sample_vulnerability :: "string \<Rightarrow> string list \<Rightarrow> Severity \<Rightarrow> Vulnerability" where
  "sample_vulnerability name ranges severity =
     \<lparr>Vulnerability_Id = ''SNYK-JS-1'', PackageManager = ''npm'', PackageName = name,
      Title = ''sample'', PublicationTime = 0, Semver = \<lparr>Vulnerable = ranges\<rparr>,
      Vulnerability_Severity = severity\<rparr>"

section \<open>Expiry policy\<close>

definition Nanosecond :: Duration where "Nanosecond = 1"
definition Second :: Duration where "Second = 1000000000 * Nanosecond"
definition Minute :: Duration where "Minute = 60 * Second"
definition Hour :: Duration where "Hour = 60 * Minute"

definition minDuration :: Duration where "minDuration = - (2 ^ 63)"
definition maxDuration :: Duration where "maxDuration = 2 ^ 63 - 1"

text \<open>\<open>Time.Sub\<close> saturates at the ends of the range of \<open>int64\<close>.\<close>

definition Time_Sub :: "Time \<Rightarrow> Time \<Rightarrow> Duration" where
  "Time_Sub t u =
     (if t - u < minDuration then minDuration
      else if t - u > maxDuration then maxDuration
      else t - u)"

text \<open>
  \<open>Duration.Hours\<close> splits the duration into whole hours and a remainder, with Go's
  truncating division, and adds the two as floating-point numbers. The model
  adds them as reals. The two tests of \<open>calcExpire\<close> compare the sum with 1 and
  with 24, both exact in binary floating point, and a remainder of one nanosecond
  is far above the rounding step at 24, so the rounded sum falls on the same side
  as the real one.
\<close>

definition Duration_Hours :: "Duration \<Rightarrow> real" where
  "Duration_Hours d =
     real_of_int (d sdiv Hour) + real_of_int (d smod Hour) / (60 * 60 * 1000000000)"

text \<open>The duration that \<open>calcExpire\<close> adds to the current time, from the record's age.\<close>

definition expire_of_age :: "Duration \<Rightarrow> Duration" where
  "expire_of_age age =
     (let expire = age sdiv 100 in
      if Duration_Hours expire < 1 then Hour
      else if Duration_Hours expire > 24 then 24 * Hour
      else expire)"

text \<open>\<open>calcExpire\<close>, with the reading of the clock passed in.\<close>

definition calcExpire :: "Time \<Rightarrow> Time \<Rightarrow> Time" where
  "calcExpire now lastUpdate = now + expire_of_age (Time_Sub now lastUpdate)"

section \<open>The semantic-version library\<close>

text \<open>
  The resolver calls five operations of the Masterminds semver package, which is
  not part of the repository. They are parameters of the model: parsing a version,
  parsing a range (its error message is copied into the tree's error list),
  \<open>Constraints.Validate\<close> (its boolean result), \<open>Constraints.Check\<close> and
  \<open>Version.GreaterThan\<close>.
\<close>

record ('v, 'c) semver =
  semver_NewVersion :: "string \<Rightarrow> 'v option"
  semver_NewConstraint :: "string \<Rightarrow> string + 'c"
  Validate :: "'c \<Rightarrow> 'v \<Rightarrow> bool"
  Check :: "'c \<Rightarrow> 'v \<Rightarrow> bool"
  GreaterThan :: "'v \<Rightarrow> 'v \<Rightarrow> bool"

section \<open>Registry documents\<close>

text \<open>
  A Go map that the code ranges over is an association list, in the order of that
  run's iteration; a lookup is \<open>map_of\<close>, a store is \<open>AList.update\<close>. The file
  count and the unpacked size come from registry documents and are added up with
  wrap-around, so they are 64-bit words.
\<close>

text \<open>A value of the empty interface, as the JSON decoder leaves it.\<close>

datatype Any = Absent | Text string | Object "(string \<times> string) list"

record Dist =
  FileCount :: "64 word"
  UnpackedSize :: "64 word"

record DistTags =
  Latest :: string

record NpmUser =
  NpmUser_Name :: string
  Email :: string

record VersionInfo =
  VersionInfo_Name :: string
  VersionInfo_Version :: string
  Description :: string
  Homepage :: Any
  License :: Any
  VersionInfo_Dependencies :: "(string \<times> string) list"
  DevDependencies :: "(string \<times> string) list"
  VersionInfo_NpmUser :: NpmUser
  VersionInfo_Dist :: Dist
  Os :: "string list"
  Cpu :: "string list"

definition zero_VersionInfo :: VersionInfo where
  "zero_VersionInfo =
     \<lparr>VersionInfo_Name = [], VersionInfo_Version = [], Description = [], Homepage = Absent,
      License = Absent, VersionInfo_Dependencies = [], DevDependencies = [],
      VersionInfo_NpmUser = \<lparr>NpmUser_Name = [], Email = []\<rparr>,
      VersionInfo_Dist = \<lparr>FileCount = 0, UnpackedSize = 0\<rparr>, Os = [], Cpu = []\<rparr>"

definition GetPublisher :: "VersionInfo \<Rightarrow> string" where
  "GetPublisher v =
     (if NpmUser_Name (VersionInfo_NpmUser v) \<noteq> [] then
        (if Email (VersionInfo_NpmUser v) \<noteq> []
         then NpmUser_Name (VersionInfo_NpmUser v) @ '' ( '' @ Email (VersionInfo_NpmUser v) @ '' )''
         else NpmUser_Name (VersionInfo_NpmUser v))
      else if Email (VersionInfo_NpmUser v) \<noteq> [] then Email (VersionInfo_NpmUser v)
      else [])"

record PackageInfo =
  PackageInfo_Name :: string
  PackageInfo_DistTags :: DistTags
  PackageInfo_Versions :: "(string \<times> VersionInfo) list"
  PackageInfo_Time :: "(string \<times> Time) list"

text \<open>One round of the loop of \<open>MaxVersion\<close>, on the pair of its two variables.\<close>

definition MaxVersion_step ::
  "('v, 'c) semver \<Rightarrow> 'c \<Rightarrow> string \<times> VersionInfo \<Rightarrow> 'v option \<times> VersionInfo
     \<Rightarrow> 'v option \<times> VersionInfo" where
  "MaxVersion_step lib constraint entry acc =
     (case semver_NewVersion lib (fst entry) of
        None \<Rightarrow> acc
      | Some version \<Rightarrow>
          if Validate lib constraint version then
            (case fst acc of
               None \<Rightarrow> (Some version, snd entry)
             | Some maxVersion \<Rightarrow>
                 if GreaterThan lib version maxVersion then (Some version, snd entry) else acc)
          else acc)"

definition MaxVersion :: "('v, 'c) semver \<Rightarrow> PackageInfo \<Rightarrow> string \<Rightarrow> string + VersionInfo" where
  "MaxVersion lib p constraintRaw =
     (case semver_NewConstraint lib constraintRaw of
        Inl err \<Rightarrow> Inl err
      | Inr constraint \<Rightarrow>
          (case fold (MaxVersion_step lib constraint) (PackageInfo_Versions p)
                  (None, zero_VersionInfo) of
             (None, maxVersionInfo) \<Rightarrow>
               Inl (''no matching version found in '' @ PackageInfo_Name p
                    @ '' constraint '' @ constraintRaw)
           | (Some maxVersion, maxVersionInfo) \<Rightarrow> Inr maxVersionInfo))"

text \<open>A missing key of a Go map reads as the zero value.\<close>

definition LatestVersion :: "PackageInfo \<Rightarrow> VersionInfo" where
  "LatestVersion p =
     (case map_of (PackageInfo_Versions p) (Latest (PackageInfo_DistTags p)) of
        None \<Rightarrow> zero_VersionInfo
      | Some info \<Rightarrow> info)"

definition time_at :: "(string \<times> Time) list \<Rightarrow> string \<Rightarrow> Time" where
  "time_at stamps key = (case map_of stamps key of None \<Rightarrow> 0 | Some t \<Rightarrow> t)"

definition LatestTime :: "PackageInfo \<Rightarrow> Time" where
  "LatestTime p = time_at (PackageInfo_Time p) (Latest (PackageInfo_DistTags p))"

section \<open>The resolved tree\<close>

text \<open>
  \<open>Packages\<close> and \<open>Versions\<close> grow by one for each entry the tree stores, so
  they stay far from the range of a Go \<open>int\<close> and are unbounded integers here;
  \<open>Files\<close> and \<open>DiskSpace\<close> wrap as the code's additions do.
\<close>

record Stats =
  Packages :: int
  Stats_Versions :: int
  Files :: "64 word"
  DiskSpace :: "64 word"
  Stats_VulnerabilityStats :: VulnerabilityStats

record Version =
  Info :: VersionInfo
  Version_Time :: Time
  Version_Dependencies :: "(string \<times> string list) list"
  Publishers :: "(string \<times> int) list"
  Vulnerabilities :: "Vulnerability list"
  Version_Stats :: Stats
  Errors :: "string list"

definition NewVersion :: "VersionInfo \<Rightarrow> Time \<Rightarrow> Version" where
  "NewVersion versionInfo time =
     (let stats = \<lparr>Packages = 1, Stats_Versions = 1,
                   Files = FileCount (VersionInfo_Dist versionInfo),
                   DiskSpace = UnpackedSize (VersionInfo_Dist versionInfo),
                   Stats_VulnerabilityStats = zero_VulnerabilityStats\<rparr>;
          publisher = GetPublisher versionInfo;
          publishers = (if publisher \<noteq> [] then [(publisher, 1)] else [])
      in \<lparr>Info = versionInfo, Version_Time = time, Version_Dependencies = [],
          Publishers = publishers, Vulnerabilities = [], Version_Stats = stats, Errors = []\<rparr>)"

text \<open>The loop stops at the first version that parses and satisfies the range.\<close>

fun HasMatchingVersion :: "('v, 'c) semver \<Rightarrow> string list \<Rightarrow> 'c \<Rightarrow> bool" where
  "HasMatchingVersion lib [] constraint = False"
| "HasMatchingVersion lib (vRaw # versions) constraint =
     (case semver_NewVersion lib vRaw of
        None \<Rightarrow> HasMatchingVersion lib versions constraint
      | Some v \<Rightarrow>
          if Validate lib constraint v then True
          else HasMatchingVersion lib versions constraint)"

fun strArrContain :: "string list \<Rightarrow> string \<Rightarrow> bool" where
  "strArrContain [] s = False"
| "strArrContain (item # array) s = (if item = s then True else strArrContain array s)"

definition MatchPlatform :: "VersionInfo \<Rightarrow> string \<Rightarrow> string \<Rightarrow> bool" where
  "MatchPlatform p os cpu =
     (if Os p \<noteq> [] \<and> \<not> strArrContain (Os p) os then False
      else if Cpu p \<noteq> [] \<and> \<not> strArrContain (Cpu p) cpu then False
      else True)"

section \<open>Vulnerability correlation\<close>

text \<open>The two inner loops of \<open>GatherVulnerabilities\<close>, over the variable \<open>match\<close>.\<close>

definition match_exprs :: "('v, 'c) semver \<Rightarrow> 'v \<Rightarrow> string list \<Rightarrow> bool \<Rightarrow> bool" where
  "match_exprs lib depV exprs match0 =
     fold (\<lambda>expr match.
             case semver_NewConstraint lib expr of
               Inl err \<Rightarrow> match
             | Inr c \<Rightarrow> if Check lib c depV then True else match)
          exprs match0"

definition match_versions ::
  "('v, 'c) semver \<Rightarrow> string list \<Rightarrow> string list \<Rightarrow> bool \<Rightarrow> bool" where
  "match_versions lib depVersions exprs match0 =
     fold (\<lambda>depVersion match.
             case semver_NewVersion lib depVersion of
               None \<Rightarrow> match
             | Some depV \<Rightarrow> match_exprs lib depV exprs match)
          depVersions match0"

definition installed_versions :: "Version \<Rightarrow> string \<Rightarrow> string list" where
  "installed_versions v name =
     (if name = VersionInfo_Name (Info v) then [VersionInfo_Version (Info v)]
      else (case map_of (Version_Dependencies v) name of None \<Rightarrow> [] | Some versions \<Rightarrow> versions))"

definition vulnerability_matches :: "('v, 'c) semver \<Rightarrow> Version \<Rightarrow> Vulnerability \<Rightarrow> bool" where
  "vulnerability_matches lib v vulnerability =
     match_versions lib (installed_versions v (PackageName vulnerability))
       (Vulnerable (Semver vulnerability)) False"

text \<open>
  The database query is a parameter: from the list of package names to the rows
  stored for them, or the error of the query. The errors of
  \<open>PackageInfo.GatherDependencies\<close> are kept as values: the version that was not
  found with the package's name, or the package's name, the requested version
  and the message of the failed gathering of vulnerabilities.
\<close>

datatype error =
    VersionNotFound string string
  | VulnerabilitiesFailed string string string

definition GatherVulnerabilities ::
  "('v, 'c) semver \<Rightarrow> (string list \<Rightarrow> string + Vulnerability list) \<Rightarrow> Version
     \<Rightarrow> string + Version" where
  "GatherVulnerabilities lib DbGetVulnerabilitiesForPackages v =
     (let packageNames = VersionInfo_Name (Info v) # map fst (Version_Dependencies v) in
      case DbGetVulnerabilitiesForPackages packageNames of
        Inl err \<Rightarrow>
          Inl (''could not get vulnerabilities for package '' @ VersionInfo_Name (Info v)
               @ '': '' @ err)
      | Inr allVulnerabilities \<Rightarrow>
          (let vulnerabilities =
                 fold (\<lambda>vulnerability acc.
                         if vulnerability_matches lib v vulnerability
                         then acc @ [vulnerability] else acc)
                      allVulnerabilities []
           in Inr (v\<lparr>Vulnerabilities := vulnerabilities,
                      Version_Stats := (Version_Stats v)
                        \<lparr>Stats_VulnerabilityStats := GetVulnerabilityStats vulnerabilities\<rparr>\<rparr>)))"

section \<open>Dependency resolution\<close>

text \<open>
  The metadata pool is a parameter \<open>fetch\<close>: from a package name to the awaited
  result of its future, the error's message or the package.
\<close>

definition dep_edges :: "VersionInfo \<Rightarrow> bool \<Rightarrow> (string \<times> string) list" where
  "dep_edges p alsoDev =
     (if VersionInfo_Dependencies p \<noteq> [] \<or> (alsoDev \<and> DevDependencies p \<noteq> [])
      then VersionInfo_Dependencies p @ (if alsoDev then DevDependencies p else [])
      else [])"

definition add_error :: "Version \<Rightarrow> string \<Rightarrow> Version" where
  "add_error parent msg = parent\<lparr>Errors := Errors parent @ [msg]\<rparr>"

text \<open>The statements under \<open>if gather\<close>, up to the recursive call.\<close>

definition merge_child :: "VersionInfo \<Rightarrow> Version \<Rightarrow> Version" where
  "merge_child childVersion parent =
     (let publisher = GetPublisher childVersion;
          count = (case map_of (Publishers parent) publisher of None \<Rightarrow> 0 | Some n \<Rightarrow> n);
          stats = Version_Stats parent
      in parent\<lparr>Publishers := AList.update publisher (count + 1) (Publishers parent),
                Version_Stats := stats
                  \<lparr>Stats_Versions := Stats_Versions stats + 1,
                   Files := Files stats + FileCount (VersionInfo_Dist childVersion),
                   DiskSpace := DiskSpace stats + UnpackedSize (VersionInfo_Dist childVersion)\<rparr>\<rparr>)"

text \<open>
  One round of the loop of \<open>VersionInfo.GatherDependencies\<close> up to the recursive
  call: either the round ends with \<open>continue\<close> or with \<open>gather\<close> false, or the
  child is merged and its own dependencies are to be gathered next.
\<close>

datatype edge_outcome = Skipped Version | Gathered VersionInfo Version

definition process_edge ::
  "('v, 'c) semver \<Rightarrow> (string \<Rightarrow> string + PackageInfo) \<Rightarrow> Version \<Rightarrow> string \<times> string
     \<Rightarrow> edge_outcome" where
  "process_edge lib fetch parent edge =
     (let name = fst edge; constraintRaw = snd edge in
      case fetch name of
        Inl err \<Rightarrow> Skipped (add_error parent (''could not get '' @ name @ '': '' @ err))
      | Inr packageInfo \<Rightarrow>
          (case semver_NewConstraint lib constraintRaw of
             Inl err \<Rightarrow>
               Skipped (add_error parent
                 (''invalid constraint for '' @ name @ '' constraint '' @ constraintRaw
                  @ '': '' @ err))
           | Inr constraint \<Rightarrow>
               (case MaxVersion lib packageInfo constraintRaw of
                  Inl err \<Rightarrow>
                    Skipped (add_error parent
                      (''no matching version for '' @ name @ '' constraint '' @ constraintRaw
                       @ '': '' @ err))
                | Inr childVersion \<Rightarrow>
                    if \<not> MatchPlatform childVersion ''linux'' ''x64'' then Skipped parent
                    else
                      (case map_of (Version_Dependencies parent) name of
                         Some versions \<Rightarrow>
                           if \<not> HasMatchingVersion lib versions constraint then
                             Gathered childVersion
                               (merge_child childVersion
                                  (parent\<lparr>Version_Dependencies :=
                                     AList.update name
                                       (versions @ [VersionInfo_Version childVersion])
                                       (Version_Dependencies parent)\<rparr>))
                           else Skipped parent
                       | None \<Rightarrow>
                           Gathered childVersion
                             (merge_child childVersion
                                (parent\<lparr>Version_Dependencies :=
                                   AList.update name [VersionInfo_Version childVersion]
                                     (Version_Dependencies parent),
                                 Version_Stats := (Version_Stats parent)
                                   \<lparr>Packages := Packages (Version_Stats parent) + 1\<rparr>\<rparr>))))))"

text \<open>
  The loop over the awaited futures. The code has no guard against a cycle of
  dependencies, so the recursion carries a bound on its depth: \<open>None\<close> means that
  the bound was reached.
\<close>

fun gather_edges ::
  "('v, 'c) semver \<Rightarrow> (string \<Rightarrow> string + PackageInfo) \<Rightarrow> nat \<Rightarrow> (string \<times> string) list
     \<Rightarrow> Version \<Rightarrow> Version option" where
  "gather_edges lib fetch depth [] parent = Some parent"
| "gather_edges lib fetch depth (edge # edges) parent =
     (case process_edge lib fetch parent edge of
        Skipped parent' \<Rightarrow> gather_edges lib fetch depth edges parent'
      | Gathered childVersion parent' \<Rightarrow>
          (case depth of
             0 \<Rightarrow> None
           | Suc d \<Rightarrow>
               (case gather_edges lib fetch d (dep_edges childVersion False) parent' of
                  None \<Rightarrow> None
                | Some parent'' \<Rightarrow> gather_edges lib fetch depth edges parent'')))"

definition VersionInfo_GatherDependencies ::
  "('v, 'c) semver \<Rightarrow> (string \<Rightarrow> string + PackageInfo) \<Rightarrow> nat \<Rightarrow> VersionInfo \<Rightarrow> Version
     \<Rightarrow> bool \<Rightarrow> Version option" where
  "VersionInfo_GatherDependencies lib fetch depth p parent alsoDev =
     gather_edges lib fetch depth (dep_edges p alsoDev) parent"

text \<open>
  The root version: the requested one, an error when the package does not have
  it, or the one under the \<open>latest\<close> tag when none is requested.
\<close>

definition root_version :: "PackageInfo \<Rightarrow> string \<Rightarrow> VersionInfo option" where
  "root_version p versionRaw =
     (if versionRaw \<noteq> [] then map_of (PackageInfo_Versions p) versionRaw
      else Some (LatestVersion p))"

definition PackageInfo_GatherDependencies ::
  "('v, 'c) semver \<Rightarrow> (string \<Rightarrow> string + PackageInfo)
     \<Rightarrow> (string list \<Rightarrow> string + Vulnerability list) \<Rightarrow> nat \<Rightarrow> PackageInfo \<Rightarrow> string
     \<Rightarrow> (error + Version) option" where
  "PackageInfo_GatherDependencies lib fetch DbGetVulnerabilitiesForPackages depth p versionRaw =
     (case root_version p versionRaw of
        None \<Rightarrow> Some (Inl (VersionNotFound versionRaw (PackageInfo_Name p)))
      | Some versionInfo \<Rightarrow>
          (case VersionInfo_GatherDependencies lib fetch depth versionInfo
                  (NewVersion versionInfo
                     (time_at (PackageInfo_Time p) (VersionInfo_Version versionInfo)))
                  False of
             None \<Rightarrow> None
           | Some parent \<Rightarrow>
               (case GatherVulnerabilities lib DbGetVulnerabilitiesForPackages parent of
                  Inl err \<Rightarrow>
                    Some (Inl (VulnerabilitiesFailed (PackageInfo_Name p) versionRaw err))
                | Inr parent' \<Rightarrow> Some (Inr parent'))))"

section \<open>Predicates used in the statements\<close>

text \<open>The version string parses and the parsed version satisfies the range.\<close>

definition satisfies :: "('v, 'c) semver \<Rightarrow> 'c \<Rightarrow> string \<Rightarrow> bool" where
  "satisfies lib c versionRaw =
     (case semver_NewVersion lib versionRaw of None \<Rightarrow> False | Some v \<Rightarrow> Validate lib c v)"

text \<open>
  The entry of \<open>info\<close> in \<open>S\<close> parses to \<open>m\<close>, which satisfies the range, and no
  version of \<open>S\<close> that satisfies the range is greater than \<open>m\<close>.
\<close>

definition is_max_of ::
  "('v, 'c) semver \<Rightarrow> 'c \<Rightarrow> (string \<times> VersionInfo) set \<Rightarrow> 'v \<Rightarrow> VersionInfo \<Rightarrow> bool" where
  "is_max_of lib c S m info \<longleftrightarrow>
     (\<exists>k. (k, info) \<in> S \<and> semver_NewVersion lib k = Some m \<and> Validate lib c m)
     \<and> (\<forall>entry\<in>S. \<forall>v. semver_NewVersion lib (fst entry) = Some v \<longrightarrow> Validate lib c v
           \<longrightarrow> \<not> GreaterThan lib v m)"

text \<open>Precedence is a strict order: what the theorem on \<open>MaxVersion\<close> asks of the library.\<close>

definition strict_order :: "('v, 'c) semver \<Rightarrow> bool" where
  "strict_order lib \<longleftrightarrow>
     (\<forall>v. \<not> GreaterThan lib v v)
     \<and> (\<forall>a b d. GreaterThan lib a b \<longrightarrow> GreaterThan lib b d \<longrightarrow> GreaterThan lib a d)"

text \<open>
  The counters of a tree agree with its dependency map: the keys are distinct,
  \<open>Packages\<close> is one more than their number, \<open>Versions\<close> is one more than the
  number of version strings under all keys, and no key has an empty list.
\<close>

definition total_entries :: "(string \<times> string list) list \<Rightarrow> nat" where
  "total_entries deps = sum_list (map (\<lambda>entry. length (snd entry)) deps)"

definition counters_agree :: "Version \<Rightarrow> bool" where
  "counters_agree v \<longleftrightarrow>
     distinct (map fst (Version_Dependencies v))
     \<and> Packages (Version_Stats v) = 1 + int (length (Version_Dependencies v))
     \<and> Stats_Versions (Version_Stats v) = 1 + int (total_entries (Version_Dependencies v))
     \<and> (\<forall>entry\<in>set (Version_Dependencies v). snd entry \<noteq> [])"

text \<open>
  The round for \<open>name\<close> and \<open>constraintRaw\<close> reaches the test for an already
  recorded version: the package is fetched, the range parses to \<open>constraint\<close>,
  \<open>childVersion\<close> is the selected version and it matches the platform.
\<close>

definition selects ::
  "('v, 'c) semver \<Rightarrow> (string \<Rightarrow> string + PackageInfo) \<Rightarrow> string \<Rightarrow> string \<Rightarrow> 'c \<Rightarrow> VersionInfo
     \<Rightarrow> bool" where
  "selects lib fetch name constraintRaw constraint childVersion \<longleftrightarrow>
     (\<exists>packageInfo. fetch name = Inr packageInfo
        \<and> MaxVersion lib packageInfo constraintRaw = Inr childVersion)
     \<and> semver_NewConstraint lib constraintRaw = Inr constraint
     \<and> MatchPlatform childVersion ''linux'' ''x64''"

text \<open>
  The installed version string parses, the range expression parses, and the
  parsed version passes \<open>Check\<close> against the parsed range.
\<close>

definition in_range :: "('v, 'c) semver \<Rightarrow> string \<Rightarrow> string \<Rightarrow> bool" where
  "in_range lib expr depVersion =
     (case semver_NewVersion lib depVersion of
        None \<Rightarrow> False
      | Some depV \<Rightarrow>
          (case semver_NewConstraint lib expr of
             Inl err \<Rightarrow> False
           | Inr c \<Rightarrow> Check lib c depV))"

text \<open>
  Every version of the package is stored under its own version string; and two
  ranges that no version string satisfies together.
\<close>

definition keyed_by_version :: "PackageInfo \<Rightarrow> bool" where
  "keyed_by_version p \<longleftrightarrow>
     (\<forall>entry\<in>set (PackageInfo_Versions p). VersionInfo_Version (snd entry) = fst entry)"

definition disjoint_ranges :: "('v, 'c) semver \<Rightarrow> 'c \<Rightarrow> 'c \<Rightarrow> bool" where
  "disjoint_ranges lib c1 c2 \<longleftrightarrow> (\<forall>s. \<not> (satisfies lib c1 s \<and> satisfies lib c2 s))"

section \<open>The deduplicating pool\<close>

text \<open>
  \<open>Result\<close> carries the data (\<open>None\<close> for \<open>nil\<close>) and the error (\<open>None\<close> for \<open>nil\<close>,
  else its message). A \<open>Future\<close> is its mutex \<open>m\<close> (held or not), the number \<open>n\<close>
  of callers registered to receive on its channel, and the result once set. The
  channel has no buffer, so it holds nothing: a send is a step that the sender
  and one receiver take together.
\<close>

record 'd Result =
  Data :: "'d option"
  Error :: "string option"

record 'd Future =
  Future_m :: bool
  Future_n :: int
  Future_result :: "'d Result option"

definition NewFuture :: "'d Future" where
  "NewFuture = \<lparr>Future_m = False, Future_n = 0, Future_result = None\<rparr>"

definition NewFutureResolved :: "'d Result \<Rightarrow> 'd Future" where
  "NewFutureResolved r = \<lparr>Future_m = False, Future_n = 0, Future_result = Some r\<rparr>"

definition TimeoutError :: string where
  "TimeoutError = ''timeout waiting for future''"

text \<open>
  A caller runs \<open>ProcessKey\<close> on a key and then \<open>Await\<close> or \<open>AwaitTimeout\<close> on the
  future it was handed. Its program counter: before \<open>Get\<close>; after a miss, before
  \<open>getOrCreate\<close>; blocked on \<open>s.workQueue <- key\<close> with the new future in hand;
  holding the future that \<open>ProcessKey\<close> returned; registered and receiving on
  the channel (the flag says whether a timer runs beside the receive); in the
  timer case of the \<open>select\<close>, before \<open>f.m.Lock()\<close>; returned with a result.
  Futures are pointers: a future is named by its address in the heap.
\<close>

datatype 'd caller =
    Start string
  | Missed string
  | Enqueuing string nat
  | Holding nat
  | Waiting nat bool
  | TimedOut nat
  | Returned "'d Result"

text \<open>
  A worker runs the loop of \<open>work\<close>: receiving from the queue; inside
  \<open>Perform\<close>; back from \<open>Perform\<close>, before \<open>Put\<close>; before \<open>finish\<close>; inside
  \<open>finish\<close> holding the mutex of the map, before \<open>Resolve\<close> takes the mutex of
  the future; inside the loop of \<open>Resolve\<close>, holding both, with the number of
  sends still to make.
\<close>

datatype 'd worker =
    Idle
  | Performing string
  | Performed string "'d Result"
  | Finishing string "'d Result"
  | Locked nat "'d Result"
  | Resolving nat "'d Result" nat

text \<open>
  The pool with its goroutines. \<open>cache\<close> is the store behind the performer's
  \<open>Get\<close> and \<open>Put\<close> (a key without an entry reads as \<open>nil\<close>); \<open>futureMap_m\<close> and
  \<open>futureMap_futures\<close> are the two fields of \<open>futureMap\<close>; \<open>heap\<close> holds every
  future allocated so far.
\<close>

record 'd SmartWorkPool =
  cache :: "(string \<times> 'd) list"
  futureMap_m :: bool
  futureMap_futures :: "(string \<times> nat) list"
  heap :: "'d Future list"
  callers :: "'d caller list"
  workers :: "'d worker list"

text \<open>
  \<open>NewSmartWorkPool\<close> and \<open>Start n\<close>, with one caller for each of the keys.
\<close>

definition started :: "nat \<Rightarrow> string list \<Rightarrow> 'd SmartWorkPool" where
  "started n keys =
     \<lparr>cache = [], futureMap_m = False, futureMap_futures = [], heap = [],
      callers = map Start keys, workers = replicate n Idle\<rparr>"

primrec lookup :: "'a list \<Rightarrow> nat \<Rightarrow> 'a option" where
  "lookup [] i = None"
| "lookup (x # xs) i = (case i of 0 \<Rightarrow> Some x | Suc j \<Rightarrow> lookup xs j)"

text \<open>
  \<open>getOrCreate\<close> between \<open>f.m.Lock()\<close> and the deferred unlock: the future stored
  under the key, or a new one stored under it; the flag tells which.
\<close>

definition getOrCreate ::
  "(string \<times> nat) list \<Rightarrow> 'd Future list \<Rightarrow> string
     \<Rightarrow> (string \<times> nat) list \<times> 'd Future list \<times> nat \<times> bool" where
  "getOrCreate fm h key =
     (case map_of fm key of
        Some future \<Rightarrow> (fm, h, future, False)
      | None \<Rightarrow> (AList.update key (length h) fm, h @ [NewFuture], length h, True))"

text \<open>
  The first half of \<open>Await\<close> and of \<open>AwaitTimeout\<close>: with the mutex of the future,
  return the result if it is set, else add one to \<open>n\<close>, unlock and receive.
\<close>

definition register :: "'d SmartWorkPool \<Rightarrow> nat \<Rightarrow> bool \<Rightarrow> 'd SmartWorkPool option" where
  "register s c timed =
     (case lookup (callers s) c of
        Some (Holding a) \<Rightarrow>
          (case lookup (heap s) a of
             Some f \<Rightarrow>
               if Future_m f then None
               else (case Future_result f of
                       Some r \<Rightarrow> Some (s\<lparr>callers := (callers s)[c := Returned r]\<rparr>)
                     | None \<Rightarrow>
                         Some (s\<lparr>heap := (heap s)[a := f\<lparr>Future_n := Future_n f + 1\<rparr>],
                                  callers := (callers s)[c := Waiting a timed]\<rparr>))
           | None \<Rightarrow> None)
      | _ \<Rightarrow> None)"

text \<open>
  The steps of the goroutines, each named after the call it completes. A step
  is \<open>None\<close> when the goroutine is not at that point of its code or is blocked
  there: on a mutex that is held, or on a channel with nobody on the other
  side.

  \<^item> \<open>Get c\<close>: caller \<open>c\<close> reads the cache; a hit returns \<open>NewFutureResolved\<close>.
  \<^item> \<open>GetOrCreate c\<close>: the whole of \<open>getOrCreate\<close>, which needs the mutex of the map.
  \<^item> \<open>Enqueue c w\<close>: \<open>s.workQueue <- key\<close> of caller \<open>c\<close> meets the receive of
    worker \<open>w\<close>; \<open>ProcessKey\<close> returns the future.
  \<^item> \<open>Perform w r\<close>: \<open>Perform\<close> returns \<open>r\<close> to worker \<open>w\<close>.
  \<^item> \<open>Put w\<close>: the result is stored if it has no error; storing \<open>nil\<close> data leaves
    the key reading as \<open>nil\<close>.
  \<^item> \<open>Finish w\<close>: \<open>finish\<close> takes the mutex of the map and reads the future of the key
    (entries of the map are never deleted; a key without one, on which the code
    would dereference \<open>nil\<close>, has no step).
  \<^item> \<open>Resolve w\<close>: \<open>Resolve\<close> takes the mutex of the future, sets the result and
    reads \<open>n\<close>.
  \<^item> \<open>Send w c\<close>: one \<open>f.channel <- result\<close>, received by caller \<open>c\<close>, which
    returns it.
  \<^item> \<open>Unlock w\<close>: the loop is over; \<open>Resolve\<close> and \<open>finish\<close> return and release
    both mutexes.
  \<^item> \<open>Await c\<close>, \<open>AwaitTimeout c\<close>: see \<open>register\<close>.
  \<^item> \<open>Timer c\<close>: the \<open>select\<close> of caller \<open>c\<close> takes the case of \<open>time.After\<close>.
  \<^item> \<open>GiveUp c\<close>: that case takes the mutex of the future, subtracts one from
    \<open>n\<close> and returns \<open>TimeoutError\<close>.
\<close>

datatype 'd event =
    Get nat
  | GetOrCreate nat
  | Enqueue nat nat
  | Perform nat "'d Result"
  | Put nat
  | Finish nat
  | Resolve nat
  | Send nat nat
  | Unlock nat
  | Await nat
  | AwaitTimeout nat
  | Timer nat
  | GiveUp nat

fun pool_step :: "'d SmartWorkPool \<Rightarrow> 'd event \<Rightarrow> 'd SmartWorkPool option" where
  "pool_step s (Get c) =
     (case lookup (callers s) c of
        Some (Start key) \<Rightarrow>
          (case map_of (cache s) key of
             Some data \<Rightarrow>
               Some (s\<lparr>heap := heap s @ [NewFutureResolved \<lparr>Data = Some data, Error = None\<rparr>],
                        callers := (callers s)[c := Holding (length (heap s))]\<rparr>)
           | None \<Rightarrow> Some (s\<lparr>callers := (callers s)[c := Missed key]\<rparr>))
      | _ \<Rightarrow> None)"
| "pool_step s (GetOrCreate c) =
     (case lookup (callers s) c of
        Some (Missed key) \<Rightarrow>
          if futureMap_m s then None
          else (case getOrCreate (futureMap_futures s) (heap s) key of
                  (fm, h, future, isNew) \<Rightarrow>
                    Some (s\<lparr>futureMap_futures := fm, heap := h,
                             callers := (callers s)
                               [c := if isNew then Enqueuing key future else Holding future]\<rparr>))
      | _ \<Rightarrow> None)"
| "pool_step s (Enqueue c w) =
     (case (lookup (callers s) c, lookup (workers s) w) of
        (Some (Enqueuing key future), Some Idle) \<Rightarrow>
          Some (s\<lparr>callers := (callers s)[c := Holding future],
                   workers := (workers s)[w := Performing key]\<rparr>)
      | _ \<Rightarrow> None)"
| "pool_step s (Perform w r) =
     (case lookup (workers s) w of
        Some (Performing key) \<Rightarrow> Some (s\<lparr>workers := (workers s)[w := Performed key r]\<rparr>)
      | _ \<Rightarrow> None)"
| "pool_step s (Put w) =
     (case lookup (workers s) w of
        Some (Performed key r) \<Rightarrow>
          Some (s\<lparr>cache :=
                     (case (Error r, Data r) of
                        (None, Some data) \<Rightarrow> AList.update key data (cache s)
                      | _ \<Rightarrow> cache s),
                   workers := (workers s)[w := Finishing key r]\<rparr>)
      | _ \<Rightarrow> None)"
| "pool_step s (Finish w) =
     (case lookup (workers s) w of
        Some (Finishing key r) \<Rightarrow>
          if futureMap_m s then None
          else (case map_of (futureMap_futures s) key of
                  Some future \<Rightarrow>
                    Some (s\<lparr>futureMap_m := True,
                             workers := (workers s)[w := Locked future r]\<rparr>)
                | None \<Rightarrow> None)
      | _ \<Rightarrow> None)"
| "pool_step s (Resolve w) =
     (case lookup (workers s) w of
        Some (Locked a r) \<Rightarrow>
          (case lookup (heap s) a of
             Some f \<Rightarrow>
               if Future_m f then None
               else Some (s\<lparr>heap := (heap s)
                                 [a := f\<lparr>Future_m := True, Future_result := Some r\<rparr>],
                             workers := (workers s)[w := Resolving a r (nat (Future_n f))]\<rparr>)
           | None \<Rightarrow> None)
      | _ \<Rightarrow> None)"
| "pool_step s (Send w c) =
     (case (lookup (workers s) w, lookup (callers s) c) of
        (Some (Resolving a r (Suc k)), Some (Waiting b timed)) \<Rightarrow>
          if a = b
          then Some (s\<lparr>workers := (workers s)[w := Resolving a r k],
                        callers := (callers s)[c := Returned r]\<rparr>)
          else None
      | _ \<Rightarrow> None)"
| "pool_step s (Unlock w) =
     (case lookup (workers s) w of
        Some (Resolving a r 0) \<Rightarrow>
          (case lookup (heap s) a of
             Some f \<Rightarrow>
               Some (s\<lparr>heap := (heap s)[a := f\<lparr>Future_m := False\<rparr>],
                        futureMap_m := False,
                        workers := (workers s)[w := Idle]\<rparr>)
           | None \<Rightarrow> None)
      | _ \<Rightarrow> None)"
| "pool_step s (Await c) = register s c False"
| "pool_step s (AwaitTimeout c) = register s c True"
| "pool_step s (Timer c) =
     (case lookup (callers s) c of
        Some (Waiting a True) \<Rightarrow> Some (s\<lparr>callers := (callers s)[c := TimedOut a]\<rparr>)
      | _ \<Rightarrow> None)"
| "pool_step s (GiveUp c) =
     (case lookup (callers s) c of
        Some (TimedOut a) \<Rightarrow>
          (case lookup (heap s) a of
             Some f \<Rightarrow>
               if Future_m f then None
               else Some (s\<lparr>heap := (heap s)[a := f\<lparr>Future_n := Future_n f - 1\<rparr>],
                             callers := (callers s)
                               [c := Returned \<lparr>Data = None, Error = Some TimeoutError\<rparr>]\<rparr>)
           | None \<Rightarrow> None)
      | _ \<Rightarrow> None)"

text \<open>
  A schedule is a list of steps; it is \<open>None\<close> as soon as one of them cannot be
  taken.
\<close>

fun pool_run :: "'d SmartWorkPool \<Rightarrow> 'd event list \<Rightarrow> 'd SmartWorkPool option" where
  "pool_run s [] = Some s"
| "pool_run s (e # es) = (case pool_step s e of None \<Rightarrow> None | Some s' \<Rightarrow> pool_run s' es)"

text \<open>
  What a schedule does, read off its steps: the keys for which \<open>getOrCreate\<close>
  returned \<open>isNew = true\<close>, and the keys that a worker received from the queue,
  each followed by one call of \<open>Perform\<close>. Both stop where the schedule stops.
\<close>

fun new_key :: "'d SmartWorkPool \<Rightarrow> 'd event \<Rightarrow> string list" where
  "new_key s (GetOrCreate c) =
     (case lookup (callers s) c of
        Some (Missed key) \<Rightarrow>
          (case getOrCreate (futureMap_futures s) (heap s) key of
             (fm, h, future, isNew) \<Rightarrow> if isNew then [key] else [])
      | _ \<Rightarrow> [])"
| "new_key s e = []"

fun handed :: "'d SmartWorkPool \<Rightarrow> 'd event \<Rightarrow> string list" where
  "handed s (Enqueue c w) =
     (case lookup (callers s) c of Some (Enqueuing key future) \<Rightarrow> [key] | _ \<Rightarrow> [])"
| "handed s e = []"

fun isNews :: "'d SmartWorkPool \<Rightarrow> 'd event list \<Rightarrow> string list" where
  "isNews s [] = []"
| "isNews s (e # es) =
     (case pool_step s e of None \<Rightarrow> [] | Some s' \<Rightarrow> new_key s e @ isNews s' es)"

fun Performs :: "'d SmartWorkPool \<Rightarrow> 'd event list \<Rightarrow> string list" where
  "Performs s [] = []"
| "Performs s (e # es) =
     (case pool_step s e of None \<Rightarrow> [] | Some s' \<Rightarrow> handed s e @ Performs s' es)"

text \<open>
  The keys of the map of futures, the keys that some caller is sending to the
  queue, and what holds of them in every state: a key being sent is in the map,
  and one caller at most is sending it.
\<close>

definition known_keys :: "'d SmartWorkPool \<Rightarrow> string set" where
  "known_keys s = dom (map_of (futureMap_futures s))"

definition enqueuing :: "'d SmartWorkPool \<Rightarrow> string set" where
  "enqueuing s = {key. \<exists>c future. lookup (callers s) c = Some (Enqueuing key future)}"

definition queue_inv :: "'d SmartWorkPool \<Rightarrow> bool" where
  "queue_inv s \<longleftrightarrow>
     enqueuing s \<subseteq> known_keys s
     \<and> (\<forall>c c' key future future'.
          lookup (callers s) c = Some (Enqueuing key future)
          \<longrightarrow> lookup (callers s) c' = Some (Enqueuing key future') \<longrightarrow> c = c')"

text \<open>
  Three requests ask for the same key of a pool started with four workers, as
  \<open>GetVersion\<close> does on \<open>versionPool\<close>, each waiting with a timeout. In the first
  schedule the timer of the first caller fires while the worker is between the
  \<open>f.m.Lock()\<close> of \<open>finish\<close> and the \<open>f.m.Lock()\<close> of \<open>Resolve\<close>; in the second
  the timer does not fire; in the third it fires, and the caller has given up,
  before \<open>Perform\<close> returns.
\<close>

definition computed :: "'d \<Rightarrow> 'd Result" where
  "computed data = \<lparr>Data = Some data, Error = None\<rparr>"

definition timed_out :: "'d Result" where
  "timed_out = \<lparr>Data = None, Error = Some TimeoutError\<rparr>"

definition timer_fires :: "'d \<Rightarrow> 'd event list" where
  "timer_fires data =
     [Get 0, GetOrCreate 0, Enqueue 0 0, AwaitTimeout 0,
      Get 1, GetOrCreate 1, Get 2,
      Perform 0 (computed data), Put 0, Finish 0,
      Timer 0,
      Resolve 0]"

definition timer_waits :: "'d \<Rightarrow> 'd event list" where
  "timer_waits data =
     [Get 0, GetOrCreate 0, Enqueue 0 0, AwaitTimeout 0,
      Get 1, GetOrCreate 1, Get 2,
      Perform 0 (computed data), Put 0, Finish 0,
      Resolve 0, Send 0 0, Unlock 0,
      AwaitTimeout 1, GetOrCreate 2, AwaitTimeout 2]"

definition timer_early :: "'d \<Rightarrow> 'd event list" where
  "timer_early data =
     [Get 0, GetOrCreate 0, Enqueue 0 0, AwaitTimeout 0,
      Timer 0, GiveUp 0,
      Get 1, GetOrCreate 1, Get 2,
      Perform 0 (computed data), Put 0, Finish 0,
      Resolve 0, Unlock 0,
      AwaitTimeout 1, GetOrCreate 2, AwaitTimeout 2]"

definition stuck :: "string \<Rightarrow> 'd \<Rightarrow> 'd SmartWorkPool" where
  "stuck key data =
     \<lparr>cache = [(key, data)],
      futureMap_m = True,
      futureMap_futures = [(key, 0)],
      heap = [\<lparr>Future_m = True, Future_n = 1, Future_result = Some (computed data)\<rparr>],
      callers = [TimedOut 0, Holding 0, Missed key],
      workers = [Resolving 0 (computed data) 1, Idle, Idle, Idle]\<rparr>"

definition served :: "string \<Rightarrow> 'd \<Rightarrow> 'd SmartWorkPool" where
  "served key data =
     \<lparr>cache = [(key, data)],
      futureMap_m = False,
      futureMap_futures = [(key, 0)],
      heap = [\<lparr>Future_m = False, Future_n = 1, Future_result = Some (computed data)\<rparr>],
      callers = [Returned (computed data), Returned (computed data), Returned (computed data)],
      workers = [Idle, Idle, Idle, Idle]\<rparr>"

definition expired :: "string \<Rightarrow> 'd \<Rightarrow> 'd SmartWorkPool" where
  "expired key data =
     \<lparr>cache = [(key, data)],
      futureMap_m = False,
      futureMap_futures = [(key, 0)],
      heap = [\<lparr>Future_m = False, Future_n = 0, Future_result = Some (computed data)\<rparr>],
      callers = [Returned timed_out, Returned (computed data), Returned (computed data)],
      workers = [Idle, Idle, Idle, Idle]\<rparr>"

section \<open>A small instance of the library and a sample registry\<close>

text \<open>
  To run the model on concrete inputs: versions written as three numbers, and
  ranges written as one comparator and a version, compared as the library
  compares them.
\<close>

definition digit_value :: "char \<Rightarrow> nat option" where
  "digit_value c = map_of (zip ''0123456789'' [0 ..< 10]) c"

fun parse_digits :: "nat \<Rightarrow> string \<Rightarrow> nat option" where
  "parse_digits acc [] = Some acc"
| "parse_digits acc (c # cs) =
     (case digit_value c of None \<Rightarrow> None | Some d \<Rightarrow> parse_digits (10 * acc + d) cs)"

definition parse_number :: "string \<Rightarrow> nat option" where
  "parse_number s = (if s = [] then None else parse_digits 0 s)"

fun split_dots :: "string \<Rightarrow> string list" where
  "split_dots [] = [[]]"
| "split_dots (c # cs) =
     (if c = CHR ''.'' then [] # split_dots cs
      else (case split_dots cs of [] \<Rightarrow> [[c]] | part # parts \<Rightarrow> (c # part) # parts))"

type_synonym plain_version = "nat \<times> nat \<times> nat"

definition plain_NewVersion :: "string \<Rightarrow> plain_version option" where
  "plain_NewVersion s =
     (case map parse_number (split_dots s) of
        [Some major, Some minor, Some patch] \<Rightarrow> Some (major, minor, patch)
      | _ \<Rightarrow> None)"

datatype plain_op = OpLess | OpLessEq | OpGreater | OpGreaterEq | OpEq

definition plain_less :: "plain_version \<Rightarrow> plain_version \<Rightarrow> bool" where
  "plain_less a b =
     (fst a < fst b \<or> (fst a = fst b \<and>
        (fst (snd a) < fst (snd b) \<or> (fst (snd a) = fst (snd b) \<and> snd (snd a) < snd (snd b)))))"

definition split_op :: "string \<Rightarrow> plain_op \<times> string" where
  "split_op s =
     (case s of
        CHR ''<'' # CHR ''='' # rest \<Rightarrow> (OpLessEq, rest)
      | CHR ''>'' # CHR ''='' # rest \<Rightarrow> (OpGreaterEq, rest)
      | CHR ''<'' # rest \<Rightarrow> (OpLess, rest)
      | CHR ''>'' # rest \<Rightarrow> (OpGreater, rest)
      | CHR ''='' # rest \<Rightarrow> (OpEq, rest)
      | _ \<Rightarrow> (OpEq, s))"

definition plain_NewConstraint :: "string \<Rightarrow> string + plain_op \<times> plain_version" where
  "plain_NewConstraint s =
     (case plain_NewVersion (snd (split_op s)) of
        None \<Rightarrow> Inl (''improper constraint: '' @ s)
      | Some v \<Rightarrow> Inr (fst (split_op s), v))"

definition plain_check :: "plain_op \<times> plain_version \<Rightarrow> plain_version \<Rightarrow> bool" where
  "plain_check c v =
     (case fst c of
        OpLess \<Rightarrow> plain_less v (snd c)
      | OpLessEq \<Rightarrow> \<not> plain_less (snd c) v
      | OpGreater \<Rightarrow> plain_less (snd c) v
      | OpGreaterEq \<Rightarrow> \<not> plain_less v (snd c)
      | OpEq \<Rightarrow> v = snd c)"

definition plain_semver :: "(plain_version, plain_op \<times> plain_version) semver" where
  "plain_semver =
     \<lparr>semver_NewVersion = plain_NewVersion, semver_NewConstraint = plain_NewConstraint,
      Validate = plain_check, Check = plain_check, GreaterThan = (\<lambda>a b. plain_less b a)\<rparr>"

definition sample_info :: "string \<Rightarrow> string \<Rightarrow> (string \<times> string) list \<Rightarrow> string \<Rightarrow> VersionInfo" where
  "sample_info name version deps publisher =
     zero_VersionInfo
       \<lparr>VersionInfo_Name := name, VersionInfo_Version := version,
        VersionInfo_Dependencies := deps,
        VersionInfo_NpmUser := \<lparr>NpmUser_Name = publisher, Email = []\<rparr>,
        VersionInfo_Dist := \<lparr>FileCount = 3, UnpackedSize = 1000\<rparr>\<rparr>"

definition sample_package :: "string \<Rightarrow> VersionInfo list \<Rightarrow> PackageInfo" where
  "sample_package name infos =
     \<lparr>PackageInfo_Name = name,
      PackageInfo_DistTags = \<lparr>Latest = (if infos = [] then [] else VersionInfo_Version (last infos))\<rparr>,
      PackageInfo_Versions = map (\<lambda>info. (VersionInfo_Version info, info)) infos,
      PackageInfo_Time = map (\<lambda>info. (VersionInfo_Version info, 0)) infos\<rparr>"

text \<open>
  The root \<open>app\<close> needs \<open>a\<close> below 2.0.0 and the packages \<open>b\<close> and \<open>c\<close>;
  \<open>b\<close> needs \<open>a\<close> from 2.0.0 on, \<open>c\<close> needs \<open>a\<close> from 1.2.0 on. The root also
  names a package the registry does not have, a range that does not parse, a
  range that no version satisfies, and a package published for another
  operating system. The versions of \<open>a\<close> and \<open>c\<close> carry no publisher.
\<close>

definition sample_a :: PackageInfo where
  "sample_a = sample_package ''a''
     [sample_info ''a'' ''1.0.0'' [] [], sample_info ''a'' ''2.1.0'' [] [],
      sample_info ''a'' ''1.5.0'' [] [], sample_info ''a'' ''2.0.0'' [] []]"

definition sample_b :: PackageInfo where
  "sample_b = sample_package ''b'' [sample_info ''b'' ''1.0.0'' [(''a'', ''>=2.0.0'')] ''bob'']"

definition sample_c :: PackageInfo where
  "sample_c = sample_package ''c'' [sample_info ''c'' ''1.0.0'' [(''a'', ''>=1.2.0'')] []]"

definition sample_old :: PackageInfo where
  "sample_old = sample_package ''old'' [sample_info ''old'' ''1.0.0'' [] ''carol'']"

definition sample_win_info :: VersionInfo where
  "sample_win_info =
     (sample_info ''win'' ''1.0.0'' [(''a'', ''>=2.0.0'')] ''dave'')\<lparr>Os := [''win32'']\<rparr>"

definition sample_win :: PackageInfo where
  "sample_win = sample_package ''win'' [sample_win_info]"

definition sample_app_info :: VersionInfo where
  "sample_app_info =
     sample_info ''app'' ''1.0.0''
       [(''a'', ''<2.0.0''), (''ghost'', ''>=1.0.0''), (''b'', ''>=1.0.0''),
        (''old'', ''latest''), (''c'', ''>=1.0.0''), (''old'', ''>=9.0.0''),
        (''win'', ''>=1.0.0'')]
       ''alice''"

definition sample_app :: PackageInfo where
  "sample_app = sample_package ''app'' [sample_app_info]"

definition sample_registry :: "PackageInfo list" where
  "sample_registry = [sample_app, sample_a, sample_b, sample_c, sample_old, sample_win]"

definition sample_fetch :: "string \<Rightarrow> string + PackageInfo" where
  "sample_fetch name =
     (case find (\<lambda>p. PackageInfo_Name p = name) sample_registry of
        None \<Rightarrow> Inl (''could not get package '' @ name @ '': 404 Not Found'')
      | Some p \<Rightarrow> Inr p)"

text \<open>Two database queries: one that fails and one that finds no rows.\<close>

definition failing_db :: "string list \<Rightarrow> string + Vulnerability list" where
  "failing_db names = Inl ''database is locked''"

definition empty_db :: "string list \<Rightarrow> string + Vulnerability list" where
  "empty_db names = Inr []"

definition sample_start :: Version where
  "sample_start = NewVersion sample_app_info 0"

text \<open>The tree that the resolution of \<open>app\<close> yields on the sample registry.\<close>

definition sample_tree :: Version where
  "sample_tree =
     sample_start
       \<lparr>Version_Dependencies :=
          [(''a'', [''1.5.0'', ''2.1.0'']), (''b'', [''1.0.0'']), (''c'', [''1.0.0''])],
        Publishers := [(''alice'', 1), ([], 3), (''bob'', 1)],
        Version_Stats :=
          \<lparr>Packages = 4, Stats_Versions = 5, Files = 15, DiskSpace = 5000,
           Stats_VulnerabilityStats = zero_VulnerabilityStats\<rparr>,
        Errors :=
          [''could not get ghost: could not get package ghost: 404 Not Found'',
           ''invalid constraint for old constraint latest: improper constraint: latest'',
           ''no matching version for old constraint >=9.0.0: no matching version found in old constraint >=9.0.0'']\<rparr>"

text \<open>Two versions of \<open>a\<close>.\<close>

definition sample_a150 :: VersionInfo where
  "sample_a150 = sample_info ''a'' ''1.5.0'' [] []"

definition sample_a210 :: VersionInfo where
  "sample_a210 = sample_info ''a'' ''2.1.0'' [] []"

text \<open>
  Rows of the vulnerability table for the sample tree, the query that selects
  them by package name, and a root \<open>left-pad\<close> without dependencies.
\<close>

definition sample_vulnerabilities :: "Vulnerability list" where
  "sample_vulnerabilities =
     [sample_vulnerability ''a'' [''oops'', ''<1.6.0''] High,
      sample_vulnerability ''b'' [''<1.0.0''] Low,
      sample_vulnerability ''app'' [''<1.2.3''] Critical,
      sample_vulnerability ''c'' [''>=1.0.0''] ''moderate'']"

definition sample_db :: "string list \<Rightarrow> string + Vulnerability list" where
  "sample_db names = Inr (filter (\<lambda>v. PackageName v \<in> set names) sample_vulnerabilities)"

definition sample_pad :: "string \<Rightarrow> Version" where
  "sample_pad version = NewVersion (sample_info ''left-pad'' version [] []) 0"

text \<open>A row whose severity is none of the four, and the query that returns it.\<close>

definition moderate_row :: Vulnerability where
  "moderate_row = sample_vulnerability ''left-pad'' [''<1.2.3''] ''moderate''"

definition moderate_db :: "string list \<Rightarrow> string + Vulnerability list" where
  "moderate_db names = Inr (filter (\<lambda>v. PackageName v \<in> set names) [moderate_row])"

text \<open>
  A package whose two entries carry a version string other than their keys, with
  its registry; and the trees after the first and the second round for \<open>a\<close>.
\<close>

definition sample_mislabelled :: PackageInfo where
  "sample_mislabelled =
     \<lparr>PackageInfo_Name = ''m'', PackageInfo_DistTags = \<lparr>Latest = ''2.1.0''\<rparr>,
      PackageInfo_Versions =
        [(''1.5.0'', sample_info ''m'' ''0.0.1'' [] []),
         (''2.1.0'', sample_info ''m'' ''0.0.1'' [] [])],
      PackageInfo_Time = []\<rparr>"

definition mislabelled_fetch :: "string \<Rightarrow> string + PackageInfo" where
  "mislabelled_fetch name =
     (if name = ''m'' then Inr sample_mislabelled
      else Inl (''could not get package '' @ name @ '': 404 Not Found''))"

definition sample_first :: Version where
  "sample_first =
     merge_child sample_a150
       (sample_start
          \<lparr>Version_Dependencies :=
             AList.update ''a'' [''1.5.0''] (Version_Dependencies sample_start),
           Version_Stats := (Version_Stats sample_start)
             \<lparr>Packages := Packages (Version_Stats sample_start) + 1\<rparr>\<rparr>)"

definition sample_second :: Version where
  "sample_second =
     merge_child sample_a210
       (sample_first
          \<lparr>Version_Dependencies :=
             AList.update ''a'' ([''1.5.0''] @ [''2.1.0'']) (Version_Dependencies sample_first)\<rparr>)"

section \<open>Properties of the severity histogram\<close>

lemma severity_names_distinct:
  "Low \<noteq> Medium" "Low \<noteq> High" "Low \<noteq> Critical"
  "Medium \<noteq> High" "Medium \<noteq> Critical" "High \<noteq> Critical"
  "Medium \<noteq> Low" "High \<noteq> Low" "Critical \<noteq> Low"
  "High \<noteq> Medium" "Critical \<noteq> Medium" "Critical \<noteq> High"
  by (simp_all add: Low_def Medium_def High_def Critical_def)

lemma fold_count_severity_Low:
  "LowCount (fold count_severity vs st) = LowCount st + int (length (with_severity Low vs))"
  by (induction vs arbitrary: st)
     (simp_all add: count_severity_def with_severity_def Let_def severity_names_distinct)

lemma fold_count_severity_Medium:
  "MediumCount (fold count_severity vs st) =
     MediumCount st + int (length (with_severity Medium vs))"
  by (induction vs arbitrary: st)
     (simp_all add: count_severity_def with_severity_def Let_def severity_names_distinct)

lemma fold_count_severity_High:
  "HighCount (fold count_severity vs st) = HighCount st + int (length (with_severity High vs))"
  by (induction vs arbitrary: st)
     (simp_all add: count_severity_def with_severity_def Let_def severity_names_distinct)

lemma fold_count_severity_Critical:
  "CriticalCount (fold count_severity vs st) =
     CriticalCount st + int (length (with_severity Critical vs))"
  by (induction vs arbitrary: st)
     (simp_all add: count_severity_def with_severity_def Let_def severity_names_distinct)

lemma GetVulnerabilityStats_counts:
  "LowCount (GetVulnerabilityStats vs) = int (length (with_severity Low vs))"
  "MediumCount (GetVulnerabilityStats vs) = int (length (with_severity Medium vs))"
  "HighCount (GetVulnerabilityStats vs) = int (length (with_severity High vs))"
  "CriticalCount (GetVulnerabilityStats vs) = int (length (with_severity Critical vs))"
  by (simp_all add: GetVulnerabilityStats_def zero_VulnerabilityStats_def
      fold_count_severity_Low fold_count_severity_Medium fold_count_severity_High
      fold_count_severity_Critical)

lemma four_filters_length:
  "length (with_severity Low vs) + length (with_severity Medium vs)
     + length (with_severity High vs) + length (with_severity Critical vs)
   = length (filter (\<lambda>v. Vulnerability_Severity v \<in> {Low, Medium, High, Critical}) vs)"
  by (induction vs) (auto simp: with_severity_def severity_names_distinct)

lemma bucket_total_eq:
  "bucket_total (GetVulnerabilityStats vs) =
     int (length (filter (\<lambda>v. Vulnerability_Severity v \<in> {Low, Medium, High, Critical}) vs))"
  unfolding bucket_total_def GetVulnerabilityStats_counts
  using four_filters_length [of vs] by linarith

text \<open>
  Claim C10. \<open>GetVulnerabilityStats\<close> counts a vulnerability in the bucket of its
  severity when that is one of "low", "medium", "high" and "critical", and in no
  bucket otherwise: each bucket holds the number of list elements of its severity,
  the four buckets together hold the number of elements whose severity is one of
  the four, which is at most the length of the list, and a list of one
  vulnerability of severity "moderate" has an empty histogram.
\<close>

theorem GetVulnerabilityStats_buckets:
  "LowCount (GetVulnerabilityStats vs) = int (length (with_severity Low vs))
   \<and> MediumCount (GetVulnerabilityStats vs) = int (length (with_severity Medium vs))
   \<and> HighCount (GetVulnerabilityStats vs) = int (length (with_severity High vs))
   \<and> CriticalCount (GetVulnerabilityStats vs) = int (length (with_severity Critical vs))
   \<and> bucket_total (GetVulnerabilityStats vs) =
       int (length (filter (\<lambda>v. Vulnerability_Severity v \<in> {Low, Medium, High, Critical}) vs))
   \<and> bucket_total (GetVulnerabilityStats vs) \<le> int (length vs)
   \<and> bucket_total (GetVulnerabilityStats
         [sample_vulnerability ''left-pad'' [''<1.2.3''] ''moderate'']) = 0"
  by (simp add: GetVulnerabilityStats_counts bucket_total_eq)
     (simp add: GetVulnerabilityStats_def count_severity_def sample_vulnerability_def
       zero_VulnerabilityStats_def bucket_total_def Low_def Medium_def High_def Critical_def)

section \<open>Properties of the expiry policy\<close>

lemma Hour_value: "Hour = 3600000000000"
  by (simp add: Hour_def Minute_def Second_def Nanosecond_def)

lemma Minute_value: "Minute = 60000000000"
  by (simp add: Minute_def Second_def Nanosecond_def)

lemma Duration_Hours_eq: "Duration_Hours d = real_of_int d / 3600000000000"
proof -
  have "d sdiv Hour * Hour + d smod Hour = d"
    by (rule sdiv_mult_smod_eq)
  then have "real_of_int (d sdiv Hour) * 3600000000000 + real_of_int (d smod Hour)
      = real_of_int d"
    unfolding Hour_value by (metis of_int_add of_int_mult of_int_numeral)
  then show ?thesis
    unfolding Duration_Hours_def by (simp add: field_simps)
qed

lemma Duration_Hours_less_1: "Duration_Hours d < 1 \<longleftrightarrow> d < Hour"
  by (simp add: Duration_Hours_eq Hour_value)

lemma Duration_Hours_greater_24: "Duration_Hours d > 24 \<longleftrightarrow> d > 24 * Hour"
  by (simp add: Duration_Hours_eq Hour_value)

lemma expire_of_age_clamp: "expire_of_age age = max Hour (min (24 * Hour) (age sdiv 100))"
  by (simp add: expire_of_age_def Let_def Duration_Hours_less_1 Duration_Hours_greater_24
      Hour_value)

text \<open>
  Claim C3, as the code has it. The expiry duration is a hundredth of the age
  (Go's truncating division), raised to one hour when it is less and lowered to
  24 hours when it is more, and \<open>calcExpire\<close> adds it to the current time. An
  age of 10 minutes gives one hour; an age of 10 hours gives one hour as well,
  since its hundredth is 6 minutes; an age of 30 days gives 7 hours 12 minutes,
  the hundredth itself.
\<close>

theorem calcExpire_clamp:
  "expire_of_age age = max Hour (min (24 * Hour) (age sdiv 100))
   \<and> calcExpire now lastUpdate
       = now + max Hour (min (24 * Hour) (Time_Sub now lastUpdate sdiv 100))
   \<and> expire_of_age (10 * Minute) = Hour
   \<and> expire_of_age (10 * Hour) = Hour
   \<and> expire_of_age (30 * 24 * Hour) = 7 * Hour + 12 * Minute
   \<and> expire_of_age (30 * 24 * Hour) = (30 * 24 * Hour) sdiv 100"
  by (simp add: calcExpire_def expire_of_age_clamp)
     (simp add: Hour_value Minute_value signed_divide_int_def)

text \<open>
  The claim as the specification words it fails at two of its three ages: at
  10 hours the expiry is one hour, ten times the hundredth of the age, and at
  30 days it is not 24 hours.
\<close>

theorem calcExpire_examples_counterexample:
  "expire_of_age (30 * 24 * Hour) \<noteq> 24 * Hour
   \<and> expire_of_age (10 * Hour) = 10 * ((10 * Hour) sdiv 100)"
  by (simp add: expire_of_age_clamp Hour_value Minute_value signed_divide_int_def)

section \<open>Selection of the highest version\<close>

lemma fold_MaxVersion_step_None:
  "fst (fold (MaxVersion_step lib c) xs acc) = None \<longleftrightarrow>
     fst acc = None \<and> (\<forall>entry\<in>set xs. \<not> satisfies lib c (fst entry))"
proof (induction xs arbitrary: acc)
  case Nil
  show ?case by simp
next
  case (Cons x xs)
  show ?case
    by (simp add: Cons.IH)
       (auto simp: MaxVersion_step_def satisfies_def split: option.splits)
qed

lemma MaxVersion_step_None_keeps:
  "fst (MaxVersion_step lib c x acc) = None \<Longrightarrow> fst acc = None \<and> \<not> satisfies lib c (fst x)"
  by (auto simp: MaxVersion_step_def satisfies_def split: option.splits if_splits)

lemma MaxVersion_step_max:
  assumes irrefl: "\<forall>v. \<not> GreaterThan lib v v"
    and trans: "\<forall>a b d. GreaterThan lib a b \<longrightarrow> GreaterThan lib b d \<longrightarrow> GreaterThan lib a d"
    and inv: "\<forall>m. fst acc = Some m \<longrightarrow> is_max_of lib c S m (snd acc)"
    and none: "fst acc = None \<longrightarrow> (\<forall>entry\<in>S. \<not> satisfies lib c (fst entry))"
    and res: "fst (MaxVersion_step lib c x acc) = Some m"
  shows "is_max_of lib c (insert x S) m (snd (MaxVersion_step lib c x acc))"
proof (cases "semver_NewVersion lib (fst x)")
  case None
  with res inv show ?thesis
    by (auto simp: MaxVersion_step_def is_max_of_def)
next
  case (Some v)
  note parsed = this
  show ?thesis
  proof (cases "Validate lib c v")
    case False
    with parsed res inv show ?thesis
      by (auto simp: MaxVersion_step_def is_max_of_def)
  next
    case True
    note valid = this
    show ?thesis
    proof (cases "fst acc")
      case None
      with none have "\<forall>entry\<in>S. \<not> satisfies lib c (fst entry)" by simp
      then have nosat: "\<forall>entry\<in>S. \<forall>w. semver_NewVersion lib (fst entry) = Some w
          \<longrightarrow> \<not> Validate lib c w"
        by (auto simp: satisfies_def)
      from None parsed valid res have "m = v" "snd (MaxVersion_step lib c x acc) = snd x"
        by (auto simp: MaxVersion_step_def)
      with parsed valid irrefl nosat show ?thesis
        unfolding is_max_of_def by (cases x) auto
    next
      case (Some m0)
      note acc = this
      with inv have old: "is_max_of lib c S m0 (snd acc)" by simp
      show ?thesis
      proof (cases "GreaterThan lib v m0")
        case True
        with acc parsed valid res
        have eq: "m = v" "snd (MaxVersion_step lib c x acc) = snd x"
          by (auto simp: MaxVersion_step_def)
        have "\<forall>entry\<in>S. \<forall>w. semver_NewVersion lib (fst entry) = Some w \<longrightarrow> Validate lib c w
            \<longrightarrow> \<not> GreaterThan lib w v"
        proof (intro ballI allI impI)
          fix entry w
          assume "entry \<in> S" "semver_NewVersion lib (fst entry) = Some w" "Validate lib c w"
          with old have "\<not> GreaterThan lib w m0" by (auto simp: is_max_of_def)
          with True trans show "\<not> GreaterThan lib w v" by blast
        qed
        with eq irrefl parsed valid show ?thesis
          unfolding is_max_of_def by (cases x) auto
      next
        case False
        with acc parsed valid res
        have eq: "m = m0" "snd (MaxVersion_step lib c x acc) = snd acc"
          by (auto simp: MaxVersion_step_def)
        with old False parsed show ?thesis
          unfolding is_max_of_def by auto
      qed
    qed
  qed
qed

lemma fold_MaxVersion_step_max:
  assumes irrefl: "\<forall>v. \<not> GreaterThan lib v v"
    and trans: "\<forall>a b d. GreaterThan lib a b \<longrightarrow> GreaterThan lib b d \<longrightarrow> GreaterThan lib a d"
  shows "(\<forall>m. fst acc = Some m \<longrightarrow> is_max_of lib c S m (snd acc))
    \<Longrightarrow> (fst acc = None \<longrightarrow> (\<forall>entry\<in>S. \<not> satisfies lib c (fst entry)))
    \<Longrightarrow> fst (fold (MaxVersion_step lib c) xs acc) = Some m
    \<Longrightarrow> is_max_of lib c (S \<union> set xs) m (snd (fold (MaxVersion_step lib c) xs acc))"
proof (induction xs arbitrary: acc S)
  case Nil
  then show ?case by simp
next
  case (Cons x xs)
  let ?acc = "MaxVersion_step lib c x acc"
  have inv': "\<forall>m. fst ?acc = Some m \<longrightarrow> is_max_of lib c (insert x S) m (snd ?acc)"
    using MaxVersion_step_max [OF irrefl trans Cons.prems(1) Cons.prems(2)] by blast
  have none': "fst ?acc = None \<longrightarrow> (\<forall>entry\<in>insert x S. \<not> satisfies lib c (fst entry))"
    using MaxVersion_step_None_keeps [of lib c x acc] Cons.prems(2) by auto
  have "is_max_of lib c (insert x S \<union> set xs) m (snd (fold (MaxVersion_step lib c) xs ?acc))"
    using Cons.IH [OF inv' none'] Cons.prems(3) by simp
  then show ?case by simp
qed

lemma plain_less_irrefl: "\<not> plain_less v v"
  by (simp add: plain_less_def)

lemma plain_less_trans: "plain_less a b \<Longrightarrow> plain_less b d \<Longrightarrow> plain_less a d"
  by (auto simp: plain_less_def)

lemma strict_order_plain_semver: "strict_order plain_semver"
  unfolding strict_order_def using plain_less_trans
  by (auto simp: plain_semver_def plain_less_irrefl)

text \<open>
  Claim C6. \<open>MaxVersion\<close> returns an error exactly when the range does not parse
  or no published version string parses to a version that satisfies it.
  Otherwise it returns the \<open>VersionInfo\<close> stored under a published version that
  satisfies the range and that no other published version satisfying the range
  exceeds in precedence.
\<close>

theorem MaxVersion_highest:
  assumes order: "strict_order lib"
  shows "((\<exists>err. MaxVersion lib p constraintRaw = Inl err) \<longleftrightarrow>
            (\<exists>err. semver_NewConstraint lib constraintRaw = Inl err)
            \<or> (\<exists>c. semver_NewConstraint lib constraintRaw = Inr c
                  \<and> (\<forall>entry\<in>set (PackageInfo_Versions p). \<not> satisfies lib c (fst entry))))
         \<and> (\<forall>info. MaxVersion lib p constraintRaw = Inr info \<longrightarrow>
               (\<exists>c m. semver_NewConstraint lib constraintRaw = Inr c
                  \<and> is_max_of lib c (set (PackageInfo_Versions p)) m info))"
proof (cases "semver_NewConstraint lib constraintRaw")
  case (Inl err)
  then show ?thesis by (simp add: MaxVersion_def)
next
  case (Inr c)
  from order have irrefl: "\<forall>v. \<not> GreaterThan lib v v"
    and trans: "\<forall>a b d. GreaterThan lib a b \<longrightarrow> GreaterThan lib b d \<longrightarrow> GreaterThan lib a d"
    unfolding strict_order_def by blast+
  let ?r = "fold (MaxVersion_step lib c) (PackageInfo_Versions p) (None, zero_VersionInfo)"
  have none: "fst ?r = None \<longleftrightarrow>
      (\<forall>entry\<in>set (PackageInfo_Versions p). \<not> satisfies lib c (fst entry))"
    by (simp add: fold_MaxVersion_step_None)
  have some: "fst ?r = Some m \<Longrightarrow> is_max_of lib c (set (PackageInfo_Versions p)) m (snd ?r)" for m
    using fold_MaxVersion_step_max [OF irrefl trans, of "(None, zero_VersionInfo)" c "{}"
        "PackageInfo_Versions p" m]
    by simp
  show ?thesis
  proof (cases ?r)
    case (Pair mv info)
    show ?thesis
    proof (cases mv)
      case None
      with Pair Inr none show ?thesis by (simp add: MaxVersion_def)
    next
      case (Some m)
      with Pair some [of m] have "is_max_of lib c (set (PackageInfo_Versions p)) m info" by simp
      moreover from Pair Some none
      have "\<not> (\<forall>entry\<in>set (PackageInfo_Versions p). \<not> satisfies lib c (fst entry))"
        by simp
      ultimately show ?thesis using Pair Some Inr by (auto simp: MaxVersion_def)
    qed
  qed
qed

text \<open>
  On the sample package \<open>a\<close>, which publishes 1.0.0, 2.1.0, 1.5.0 and 2.0.0: below
  2.0.0 the selection is 1.5.0, and from 3.0.0 on there is none.
\<close>

theorem MaxVersion_highest_witness:
  "strict_order plain_semver
   \<and> MaxVersion plain_semver sample_a ''<2.0.0'' = Inr (sample_info ''a'' ''1.5.0'' [] [])
   \<and> (\<exists>m. is_max_of plain_semver (OpLess, 2, 0, 0) (set (PackageInfo_Versions sample_a)) m
          (sample_info ''a'' ''1.5.0'' [] []))
   \<and> (\<exists>err. MaxVersion plain_semver sample_a ''>=3.0.0'' = Inl err)
   \<and> \<not> (\<exists>entry\<in>set (PackageInfo_Versions sample_a).
           satisfies plain_semver (OpGreaterEq, 3, 0, 0) (fst entry))"
proof -
  have run: "MaxVersion plain_semver sample_a ''<2.0.0'' = Inr (sample_info ''a'' ''1.5.0'' [] [])"
    by code_simp
  have c: "semver_NewConstraint plain_semver ''<2.0.0'' = Inr (OpLess, 2, 0, 0)"
    by code_simp
  have run2: "MaxVersion plain_semver sample_a ''>=3.0.0''
      = Inl ''no matching version found in a constraint >=3.0.0''"
    by code_simp
  have c2: "semver_NewConstraint plain_semver ''>=3.0.0'' = Inr (OpGreaterEq, 3, 0, 0)"
    by code_simp
  from MaxVersion_highest [OF strict_order_plain_semver, of sample_a "''<2.0.0''"] run c
  have max: "\<exists>m. is_max_of plain_semver (OpLess, 2, 0, 0) (set (PackageInfo_Versions sample_a)) m
        (sample_info ''a'' ''1.5.0'' [] [])"
    by auto
  from MaxVersion_highest [OF strict_order_plain_semver, of sample_a "''>=3.0.0''"] run2 c2
  have none: "\<not> (\<exists>entry\<in>set (PackageInfo_Versions sample_a).
         satisfies plain_semver (OpGreaterEq, 3, 0, 0) (fst entry))"
    by auto
  from strict_order_plain_semver run max run2 none show ?thesis by simp
qed

section \<open>Rounds of the resolution loop\<close>

lemma strArrContain_iff: "strArrContain array s \<longleftrightarrow> s \<in> set array"
  by (induction array) auto

lemma MatchPlatform_iff:
  "MatchPlatform p os cpu \<longleftrightarrow>
     (Os p = [] \<or> os \<in> set (Os p)) \<and> (Cpu p = [] \<or> cpu \<in> set (Cpu p))"
  by (auto simp: MatchPlatform_def strArrContain_iff)

lemma process_edge_fetch_error:
  "fetch name = Inl err \<Longrightarrow>
   process_edge lib fetch parent (name, constraintRaw)
     = Skipped (add_error parent (''could not get '' @ name @ '': '' @ err))"
  by (simp add: process_edge_def)

lemma process_edge_invalid_constraint:
  "fetch name = Inr packageInfo \<Longrightarrow> semver_NewConstraint lib constraintRaw = Inl err \<Longrightarrow>
   process_edge lib fetch parent (name, constraintRaw)
     = Skipped (add_error parent
         (''invalid constraint for '' @ name @ '' constraint '' @ constraintRaw @ '': '' @ err))"
  by (simp add: process_edge_def)

lemma process_edge_no_version:
  "fetch name = Inr packageInfo \<Longrightarrow> semver_NewConstraint lib constraintRaw = Inr constraint \<Longrightarrow>
   MaxVersion lib packageInfo constraintRaw = Inl err \<Longrightarrow>
   process_edge lib fetch parent (name, constraintRaw)
     = Skipped (add_error parent
         (''no matching version for '' @ name @ '' constraint '' @ constraintRaw @ '': '' @ err))"
  by (simp add: process_edge_def)

lemma process_edge_platform:
  "fetch name = Inr packageInfo \<Longrightarrow> semver_NewConstraint lib constraintRaw = Inr constraint \<Longrightarrow>
   MaxVersion lib packageInfo constraintRaw = Inr childVersion \<Longrightarrow>
   \<not> MatchPlatform childVersion ''linux'' ''x64'' \<Longrightarrow>
   process_edge lib fetch parent (name, constraintRaw) = Skipped parent"
  by (simp add: process_edge_def)

lemma gather_edges_Skipped:
  "process_edge lib fetch parent edge = Skipped parent' \<Longrightarrow>
   gather_edges lib fetch depth (edge # edges) parent = gather_edges lib fetch depth edges parent'"
  by simp

text \<open>
  A run that returns within some bound on the depth returns the same tree within
  every larger bound.
\<close>

lemma gather_edges_Suc:
  "gather_edges lib fetch depth edges parent = Some tree \<Longrightarrow>
   gather_edges lib fetch (Suc depth) edges parent = Some tree"
proof (induction lib fetch depth edges parent arbitrary: tree rule: gather_edges.induct)
  case (1 lib fetch depth parent)
  then show ?case by simp
next
  case (2 lib fetch depth edge edges parent)
  show ?case
  proof (cases "process_edge lib fetch parent edge")
    case (Skipped parent')
    with "2.prems" have "gather_edges lib fetch depth edges parent' = Some tree" by simp
    with "2.IH"(1) [OF Skipped] Skipped show ?thesis by simp
  next
    case (Gathered child parent')
    from Gathered "2.prems" obtain d parent'' where
      d: "depth = Suc d"
      and inner: "gather_edges lib fetch d (dep_edges child False) parent' = Some parent''"
      and rest: "gather_edges lib fetch depth edges parent'' = Some tree"
      by (auto split: nat.splits option.splits)
    from "2.IH"(2) [OF Gathered d inner]
    have "gather_edges lib fetch depth (dep_edges child False) parent' = Some parent''"
      using d by simp
    moreover from "2.IH"(3) [OF Gathered d inner rest]
    have "gather_edges lib fetch (Suc depth) edges parent'' = Some tree" .
    ultimately show ?thesis using Gathered by simp
  qed
qed

lemma gather_edges_deeper:
  "gather_edges lib fetch depth edges parent = Some tree \<Longrightarrow>
   gather_edges lib fetch (depth + k) edges parent = Some tree"
  by (induction k) (simp_all add: gather_edges_Suc)

text \<open>
  Claim C8. A round whose selected child version does not match the platform
  \<open>linux\<close>/\<open>x64\<close> leaves the tree as it was: no version, no statistics and no
  error are added, and the loop goes on with the next dependency. A version
  matches a platform exactly when each of its two lists is empty or contains the
  platform's entry, so a version with both lists empty always matches.
\<close>

theorem platform_mismatch_skips:
  "(MatchPlatform p os cpu \<longleftrightarrow>
      (Os p = [] \<or> os \<in> set (Os p)) \<and> (Cpu p = [] \<or> cpu \<in> set (Cpu p)))
   \<and> (Os p = [] \<and> Cpu p = [] \<longrightarrow> MatchPlatform p os cpu)
   \<and> (fetch name = Inr packageInfo
        \<and> semver_NewConstraint lib constraintRaw = Inr constraint
        \<and> MaxVersion lib packageInfo constraintRaw = Inr childVersion
        \<and> \<not> MatchPlatform childVersion ''linux'' ''x64''
      \<longrightarrow> process_edge lib fetch parent (name, constraintRaw) = Skipped parent
          \<and> gather_edges lib fetch depth ((name, constraintRaw) # edges) parent
              = gather_edges lib fetch depth edges parent)"
proof (intro conjI impI)
  show "MatchPlatform p os cpu \<longleftrightarrow>
      (Os p = [] \<or> os \<in> set (Os p)) \<and> (Cpu p = [] \<or> cpu \<in> set (Cpu p))"
    by (rule MatchPlatform_iff)
next
  assume "Os p = [] \<and> Cpu p = []"
  then show "MatchPlatform p os cpu" by (simp add: MatchPlatform_def)
next
  assume a: "fetch name = Inr packageInfo
        \<and> semver_NewConstraint lib constraintRaw = Inr constraint
        \<and> MaxVersion lib packageInfo constraintRaw = Inr childVersion
        \<and> \<not> MatchPlatform childVersion ''linux'' ''x64''"
  then show skip: "process_edge lib fetch parent (name, constraintRaw) = Skipped parent"
    by (simp add: process_edge_platform)
  show "gather_edges lib fetch depth ((name, constraintRaw) # edges) parent
              = gather_edges lib fetch depth edges parent"
    using gather_edges_Skipped [OF skip] .
qed

text \<open>The sample package \<open>win\<close> is published for \<open>win32\<close> only.\<close>

theorem platform_mismatch_skips_witness:
  "sample_fetch ''win'' = Inr sample_win
   \<and> semver_NewConstraint plain_semver ''>=1.0.0'' = Inr (OpGreaterEq, 1, 0, 0)
   \<and> MaxVersion plain_semver sample_win ''>=1.0.0'' = Inr sample_win_info
   \<and> \<not> MatchPlatform sample_win_info ''linux'' ''x64''
   \<and> process_edge plain_semver sample_fetch (NewVersion sample_app_info 0) (''win'', ''>=1.0.0'')
       = Skipped (NewVersion sample_app_info 0)
   \<and> gather_edges plain_semver sample_fetch 0 [(''win'', ''>=1.0.0'')] (NewVersion sample_app_info 0)
       = Some (NewVersion sample_app_info 0)
   \<and> MatchPlatform sample_app_info ''linux'' ''x64''"
proof -
  have f: "sample_fetch ''win'' = Inr sample_win" by code_simp
  have c: "semver_NewConstraint plain_semver ''>=1.0.0'' = Inr (OpGreaterEq, 1, 0, 0)" by code_simp
  have m: "MaxVersion plain_semver sample_win ''>=1.0.0'' = Inr sample_win_info" by code_simp
  have p: "\<not> MatchPlatform sample_win_info ''linux'' ''x64''" by code_simp
  have e: "Os sample_app_info = [] \<and> Cpu sample_app_info = []" by code_simp
  note inst = platform_mismatch_skips [of sample_app_info "''linux''" "''x64''" sample_fetch "''win''"
      sample_win plain_semver "''>=1.0.0''" "(OpGreaterEq, 1, 0, 0)" sample_win_info
      "NewVersion sample_app_info 0" 0 "[]"]
  from inst f c m p e show ?thesis by simp
qed

section \<open>Containment of errors\<close>

lemma GatherVulnerabilities_Inl_iff:
  "(\<exists>err. GatherVulnerabilities lib db v = Inl err) \<longleftrightarrow>
     (\<exists>err. db (VersionInfo_Name (Info v) # map fst (Version_Dependencies v)) = Inl err)"
  by (auto simp: GatherVulnerabilities_def Let_def split: sum.splits)

lemma root_version_None_iff:
  "root_version p versionRaw = None \<longleftrightarrow>
     versionRaw \<noteq> [] \<and> map_of (PackageInfo_Versions p) versionRaw = None"
  by (simp add: root_version_def)

lemma PackageInfo_GatherDependencies_error_iff:
  "(\<exists>e. PackageInfo_GatherDependencies lib fetch db depth p versionRaw = Some (Inl e)) \<longleftrightarrow>
     root_version p versionRaw = None
     \<or> (\<exists>root parent err. root_version p versionRaw = Some root
          \<and> VersionInfo_GatherDependencies lib fetch depth root
               (NewVersion root (time_at (PackageInfo_Time p) (VersionInfo_Version root))) False
              = Some parent
          \<and> GatherVulnerabilities lib db parent = Inl err)"
  by (auto simp: PackageInfo_GatherDependencies_def split: option.splits sum.splits)

text \<open>
  Claim C2, as the code has it. A dependency whose metadata cannot be fetched,
  whose range does not parse or for which no version is selected adds one
  message to the error list of the tree, and the loop goes on with the remaining
  dependencies. \<open>PackageInfo.GatherDependencies\<close> returns an error exactly when
  a version is requested that the package does not have, or when the query for
  the vulnerabilities of the resolved tree fails.
\<close>

theorem dependency_errors_contained:
  "(fetch name = Inl err \<longrightarrow>
      gather_edges lib fetch depth ((name, constraintRaw) # edges) parent
        = gather_edges lib fetch depth edges
            (add_error parent (''could not get '' @ name @ '': '' @ err)))
   \<and> (fetch name = Inr packageInfo \<and> semver_NewConstraint lib constraintRaw = Inl err \<longrightarrow>
      gather_edges lib fetch depth ((name, constraintRaw) # edges) parent
        = gather_edges lib fetch depth edges
            (add_error parent
               (''invalid constraint for '' @ name @ '' constraint '' @ constraintRaw
                @ '': '' @ err)))
   \<and> (fetch name = Inr packageInfo \<and> semver_NewConstraint lib constraintRaw = Inr constraint
        \<and> MaxVersion lib packageInfo constraintRaw = Inl err \<longrightarrow>
      gather_edges lib fetch depth ((name, constraintRaw) # edges) parent
        = gather_edges lib fetch depth edges
            (add_error parent
               (''no matching version for '' @ name @ '' constraint '' @ constraintRaw
                @ '': '' @ err)))
   \<and> ((\<exists>e. PackageInfo_GatherDependencies lib fetch db depth p versionRaw = Some (Inl e)) \<longleftrightarrow>
        (versionRaw \<noteq> [] \<and> map_of (PackageInfo_Versions p) versionRaw = None)
        \<or> (\<exists>root tree e. root_version p versionRaw = Some root
             \<and> VersionInfo_GatherDependencies lib fetch depth root
                  (NewVersion root (time_at (PackageInfo_Time p) (VersionInfo_Version root)))
                  False = Some tree
             \<and> db (VersionInfo_Name (Info tree) # map fst (Version_Dependencies tree)) = Inl e))"
proof (intro conjI impI)
  assume "fetch name = Inl err"
  then show "gather_edges lib fetch depth ((name, constraintRaw) # edges) parent
        = gather_edges lib fetch depth edges
            (add_error parent (''could not get '' @ name @ '': '' @ err))"
    by (simp add: process_edge_fetch_error)
next
  assume "fetch name = Inr packageInfo \<and> semver_NewConstraint lib constraintRaw = Inl err"
  then show "gather_edges lib fetch depth ((name, constraintRaw) # edges) parent
        = gather_edges lib fetch depth edges
            (add_error parent
               (''invalid constraint for '' @ name @ '' constraint '' @ constraintRaw
                @ '': '' @ err))"
    by (simp add: process_edge_invalid_constraint)
next
  assume "fetch name = Inr packageInfo \<and> semver_NewConstraint lib constraintRaw = Inr constraint
        \<and> MaxVersion lib packageInfo constraintRaw = Inl err"
  then show "gather_edges lib fetch depth ((name, constraintRaw) # edges) parent
        = gather_edges lib fetch depth edges
            (add_error parent
               (''no matching version for '' @ name @ '' constraint '' @ constraintRaw
                @ '': '' @ err))"
    by (simp add: process_edge_no_version)
next
  show "(\<exists>e. PackageInfo_GatherDependencies lib fetch db depth p versionRaw = Some (Inl e)) \<longleftrightarrow>
        (versionRaw \<noteq> [] \<and> map_of (PackageInfo_Versions p) versionRaw = None)
        \<or> (\<exists>root tree e. root_version p versionRaw = Some root
             \<and> VersionInfo_GatherDependencies lib fetch depth root
                  (NewVersion root (time_at (PackageInfo_Time p) (VersionInfo_Version root)))
                  False = Some tree
             \<and> db (VersionInfo_Name (Info tree) # map fst (Version_Dependencies tree)) = Inl e)"
    unfolding PackageInfo_GatherDependencies_error_iff root_version_None_iff
    using GatherVulnerabilities_Inl_iff [of lib db] by blast
qed

text \<open>
  The claim as the specification words it names the root version as the only
  fatal failure. Here the root version is found and the call fails all the same,
  because the query for vulnerabilities fails.
\<close>

theorem root_failure_only_counterexample:
  "root_version sample_app ''1.0.0'' = Some sample_app_info
   \<and> PackageInfo_GatherDependencies plain_semver sample_fetch failing_db 3 sample_app ''1.0.0''
       = Some (Inl (VulnerabilitiesFailed ''app'' ''1.0.0''
           ''could not get vulnerabilities for package app: database is locked''))"
  by code_simp

text \<open>
  On the sample registry: a package that cannot be fetched, a range that does not
  parse, a range that no version satisfies, a requested version that the root
  package does not have, and one that it has.
\<close>

theorem dependency_errors_contained_witness:
  "sample_fetch ''ghost'' = Inl ''could not get package ghost: 404 Not Found''
   \<and> gather_edges plain_semver sample_fetch 0 [(''ghost'', ''>=1.0.0'')] sample_start
       = Some (add_error sample_start
           ''could not get ghost: could not get package ghost: 404 Not Found'')
   \<and> sample_fetch ''old'' = Inr sample_old
   \<and> semver_NewConstraint plain_semver ''latest'' = Inl ''improper constraint: latest''
   \<and> gather_edges plain_semver sample_fetch 0 [(''old'', ''latest'')] sample_start
       = Some (add_error sample_start
           ''invalid constraint for old constraint latest: improper constraint: latest'')
   \<and> semver_NewConstraint plain_semver ''>=9.0.0'' = Inr (OpGreaterEq, 9, 0, 0)
   \<and> MaxVersion plain_semver sample_old ''>=9.0.0''
       = Inl ''no matching version found in old constraint >=9.0.0''
   \<and> gather_edges plain_semver sample_fetch 0 [(''old'', ''>=9.0.0'')] sample_start
       = Some (add_error sample_start
           ''no matching version for old constraint >=9.0.0: no matching version found in old constraint >=9.0.0'')
   \<and> (\<exists>e. PackageInfo_GatherDependencies plain_semver sample_fetch empty_db 3 sample_app ''2.0.0''
          = Some (Inl e))
   \<and> \<not> (\<exists>e. PackageInfo_GatherDependencies plain_semver sample_fetch empty_db 3 sample_app ''1.0.0''
          = Some (Inl e))"
proof -
  have f1: "sample_fetch ''ghost'' = Inl ''could not get package ghost: 404 Not Found''"
    by code_simp
  have f2: "sample_fetch ''old'' = Inr sample_old" by code_simp
  have c2: "semver_NewConstraint plain_semver ''latest'' = Inl ''improper constraint: latest''"
    by code_simp
  have c3: "semver_NewConstraint plain_semver ''>=9.0.0'' = Inr (OpGreaterEq, 9, 0, 0)"
    by code_simp
  have m3: "MaxVersion plain_semver sample_old ''>=9.0.0''
       = Inl ''no matching version found in old constraint >=9.0.0''"
    by code_simp
  have r4: "map_of (PackageInfo_Versions sample_app) ''2.0.0'' = None" by code_simp
  have r5': "map_of (PackageInfo_Versions sample_app) ''1.0.0'' \<noteq> None" by code_simp
  have e1: "gather_edges plain_semver sample_fetch 0 [(''ghost'', ''>=1.0.0'')] sample_start
       = Some (add_error sample_start
           ''could not get ghost: could not get package ghost: 404 Not Found'')"
    using dependency_errors_contained [where fetch = sample_fetch and name = "''ghost''"
        and err = "''could not get package ghost: 404 Not Found''" and lib = plain_semver
        and depth = 0 and constraintRaw = "''>=1.0.0''" and edges = "[]"
        and parent = sample_start] f1
    by simp
  have e2: "gather_edges plain_semver sample_fetch 0 [(''old'', ''latest'')] sample_start
       = Some (add_error sample_start
           ''invalid constraint for old constraint latest: improper constraint: latest'')"
    using dependency_errors_contained [where fetch = sample_fetch and name = "''old''"
        and err = "''improper constraint: latest''" and lib = plain_semver
        and depth = 0 and constraintRaw = "''latest''" and edges = "[]"
        and parent = sample_start and packageInfo = sample_old] f2 c2
    by simp
  have e3: "gather_edges plain_semver sample_fetch 0 [(''old'', ''>=9.0.0'')] sample_start
       = Some (add_error sample_start
           ''no matching version for old constraint >=9.0.0: no matching version found in old constraint >=9.0.0'')"
    using dependency_errors_contained [where fetch = sample_fetch and name = "''old''"
        and err = "''no matching version found in old constraint >=9.0.0''"
        and lib = plain_semver and depth = 0 and constraintRaw = "''>=9.0.0''" and edges = "[]"
        and parent = sample_start and packageInfo = sample_old
        and constraint = "(OpGreaterEq, 9, 0, 0)"] f2 c3 m3
    by simp
  have e4: "\<exists>e. PackageInfo_GatherDependencies plain_semver sample_fetch empty_db 3 sample_app ''2.0.0''
          = Some (Inl e)"
    using dependency_errors_contained [where fetch = sample_fetch and lib = plain_semver
        and depth = 3 and db = empty_db and p = sample_app and versionRaw = "''2.0.0''"] r4
    by simp
  have e5: "\<not> (\<exists>e. PackageInfo_GatherDependencies plain_semver sample_fetch empty_db 3 sample_app ''1.0.0''
          = Some (Inl e))"
    using dependency_errors_contained [where fetch = sample_fetch and lib = plain_semver
        and depth = 3 and db = empty_db and p = sample_app and versionRaw = "''1.0.0''"] r5'
    by (simp add: empty_db_def)
  from f1 e1 f2 c2 e2 c3 m3 e3 e4 e5 show ?thesis by simp
qed

section \<open>Counters of the resolved tree\<close>

lemma total_entries_update_new:
  "map_of al k = None \<Longrightarrow> total_entries (AList.update k w al) = total_entries al + length w"
  by (induction al) (auto simp: total_entries_def)

lemma total_entries_update_old:
  "map_of al k = Some vs \<Longrightarrow>
   total_entries (AList.update k w al) + length vs = total_entries al + length w"
  by (induction al) (auto simp: total_entries_def)

lemma length_update_new: "map_of al k = None \<Longrightarrow> length (AList.update k w al) = Suc (length al)"
  by (induction al) auto

lemma length_update_old: "map_of al k = Some vs \<Longrightarrow> length (AList.update k w al) = length al"
  by (induction al) auto

lemma set_update_subset: "set (AList.update k w al) \<subseteq> insert (k, w) (set al)"
  by (induction al) auto

lemma counters_agree_add_error: "counters_agree parent \<Longrightarrow> counters_agree (add_error parent msg)"
  by (simp add: counters_agree_def add_error_def)

lemma merge_child_fields:
  "Version_Dependencies (merge_child child parent) = Version_Dependencies parent"
  "Packages (Version_Stats (merge_child child parent)) = Packages (Version_Stats parent)"
  "Stats_Versions (Version_Stats (merge_child child parent))
     = Stats_Versions (Version_Stats parent) + 1"
  "Files (Version_Stats (merge_child child parent))
     = Files (Version_Stats parent) + FileCount (VersionInfo_Dist child)"
  "DiskSpace (Version_Stats (merge_child child parent))
     = DiskSpace (Version_Stats parent) + UnpackedSize (VersionInfo_Dist child)"
  "Errors (merge_child child parent) = Errors parent"
  "Info (merge_child child parent) = Info parent"
  "Publishers (merge_child child parent)
     = AList.update (GetPublisher child)
         ((case map_of (Publishers parent) (GetPublisher child) of None \<Rightarrow> 0 | Some n \<Rightarrow> n) + 1)
         (Publishers parent)"
  by (simp_all add: merge_child_def Let_def)

lemma counters_agree_new_name:
  assumes inv: "counters_agree parent"
    and new: "map_of (Version_Dependencies parent) name = None"
  shows "counters_agree (merge_child child
           (parent\<lparr>Version_Dependencies := AList.update name [v] (Version_Dependencies parent),
                   Version_Stats := (Version_Stats parent)
                     \<lparr>Packages := Packages (Version_Stats parent) + 1\<rparr>\<rparr>))"
proof -
  have "\<forall>entry\<in>set (AList.update name [v] (Version_Dependencies parent)). snd entry \<noteq> []"
    using inv set_update_subset [of name "[v]" "Version_Dependencies parent"]
    by (auto simp: counters_agree_def)
  with inv new show ?thesis
    by (simp add: counters_agree_def merge_child_fields distinct_update
        length_update_new total_entries_update_new)
qed

lemma counters_agree_old_name:
  assumes inv: "counters_agree parent"
    and old: "map_of (Version_Dependencies parent) name = Some versions"
  shows "counters_agree (merge_child child
           (parent\<lparr>Version_Dependencies :=
                      AList.update name (versions @ [v]) (Version_Dependencies parent)\<rparr>))"
proof -
  have "\<forall>entry\<in>set (AList.update name (versions @ [v]) (Version_Dependencies parent)).
          snd entry \<noteq> []"
    using inv set_update_subset [of name "versions @ [v]" "Version_Dependencies parent"]
    by (auto simp: counters_agree_def)
  moreover have "total_entries (AList.update name (versions @ [v]) (Version_Dependencies parent))
      = total_entries (Version_Dependencies parent) + 1"
    using total_entries_update_old [OF old, of "versions @ [v]"] by simp
  ultimately show ?thesis using inv old
    by (simp add: counters_agree_def merge_child_fields distinct_update length_update_old)
qed

lemma process_edge_counters:
  assumes inv: "counters_agree parent"
  shows "process_edge lib fetch parent edge = Skipped parent' \<Longrightarrow> counters_agree parent'"
    and "process_edge lib fetch parent edge = Gathered child parent' \<Longrightarrow> counters_agree parent'"
  using inv
  by (auto simp: process_edge_def Let_def counters_agree_add_error counters_agree_new_name
      counters_agree_old_name split: sum.splits option.splits if_splits)

lemma gather_edges_counters:
  "counters_agree parent \<Longrightarrow> gather_edges lib fetch depth edges parent = Some tree
   \<Longrightarrow> counters_agree tree"
proof (induction lib fetch depth edges parent arbitrary: tree rule: gather_edges.induct)
  case (1 lib fetch depth parent)
  then show ?case by simp
next
  case (2 lib fetch depth edge edges parent)
  show ?case
  proof (cases "process_edge lib fetch parent edge")
    case (Skipped parent')
    with "2.prems" have "counters_agree parent'"
      and "gather_edges lib fetch depth edges parent' = Some tree"
      by (auto dest: process_edge_counters(1))
    with "2.IH"(1) [OF Skipped] show ?thesis by blast
  next
    case (Gathered child parent')
    with "2.prems"(1) have inv': "counters_agree parent'"
      by (auto dest: process_edge_counters(2))
    from Gathered "2.prems"(2) obtain d parent'' where
      d: "depth = Suc d"
      and inner: "gather_edges lib fetch d (dep_edges child False) parent' = Some parent''"
      and rest: "gather_edges lib fetch depth edges parent'' = Some tree"
      by (auto split: nat.splits option.splits)
    from "2.IH"(2) [OF Gathered d inv' inner] have "counters_agree parent''" .
    from "2.IH"(3) [OF Gathered d inner this rest] show ?thesis .
  qed
qed


lemma sample_run:
  "VersionInfo_GatherDependencies plain_semver sample_fetch 3 sample_app_info sample_start False
     = Some sample_tree"
  by code_simp

lemma card_dom_map_of: "distinct (map fst al) \<Longrightarrow> card (dom (map_of al)) = length al"
  by (simp add: dom_map_of_conv_image_fst distinct_card flip: set_map)

lemma sum_dom_map_of:
  "distinct (map fst al) \<Longrightarrow>
   (\<Sum>name\<in>dom (map_of al). length (the (map_of al name))) = total_entries al"
proof (induction al)
  case Nil
  show ?case by (simp add: total_entries_def)
next
  case (Cons entry al)
  obtain k vs where entry: "entry = (k, vs)" by (cases entry)
  from Cons.prems entry have fresh: "k \<notin> dom (map_of al)" and dist: "distinct (map fst al)"
    by (auto simp: dom_map_of_conv_image_fst)
  have same: "(\<Sum>name\<in>dom (map_of al). length (the (map_of (entry # al) name)))
      = (\<Sum>name\<in>dom (map_of al). length (the (map_of al name)))"
    using fresh entry by (intro sum.cong) auto
  have dom: "dom (map_of (entry # al)) = insert k (dom (map_of al))"
    using entry by auto
  have fin: "finite (dom (map_of al))" by (rule finite_dom_map_of)
  have "(\<Sum>name\<in>dom (map_of (entry # al)). length (the (map_of (entry # al) name)))
      = length (the (map_of (entry # al) k))
        + (\<Sum>name\<in>dom (map_of al). length (the (map_of (entry # al) name)))"
    unfolding dom using fin fresh by (rule sum.insert)
  also have "\<dots> = length vs + total_entries al"
    unfolding same Cons.IH [OF dist] using entry by simp
  also have "\<dots> = total_entries (entry # al)"
    using entry by (simp add: total_entries_def)
  finally show ?case .
qed

lemma counters_agree_NewVersion: "counters_agree (NewVersion versionInfo time)"
  by (simp add: counters_agree_def NewVersion_def Let_def total_entries_def)

lemma counters_agree_GatherVulnerabilities:
  "counters_agree v \<Longrightarrow> GatherVulnerabilities lib db v = Inr v' \<Longrightarrow> counters_agree v'"
  by (auto simp: GatherVulnerabilities_def Let_def counters_agree_def split: sum.splits)

text \<open>
  Claim C4. The tree that \<open>NewVersion\<close> returns has counters that agree with its
  (empty) dependency map; every run of \<open>GatherDependencies\<close> that returns, started
  on a tree whose counters agree, returns such a tree, and so does
  \<open>PackageInfo.GatherDependencies\<close>. For such a tree \<open>Packages\<close> is one more
  than the number of names in the map, \<open>Versions\<close> is one more than the number
  of version strings in all its lists, and no list is empty.
\<close>

theorem resolved_tree_counters:
  "counters_agree (NewVersion versionInfo time)
   \<and> (counters_agree parent
        \<and> VersionInfo_GatherDependencies lib fetch depth p parent alsoDev = Some tree
      \<longrightarrow> counters_agree tree)
   \<and> (PackageInfo_GatherDependencies lib fetch db depth package versionRaw = Some (Inr resolved)
      \<longrightarrow> counters_agree resolved)
   \<and> (counters_agree v \<longrightarrow>
        Packages (Version_Stats v) = 1 + int (card (dom (map_of (Version_Dependencies v))))
        \<and> Stats_Versions (Version_Stats v)
            = 1 + int (\<Sum>name\<in>dom (map_of (Version_Dependencies v)).
                         length (the (map_of (Version_Dependencies v) name)))
        \<and> (\<forall>name versions. map_of (Version_Dependencies v) name = Some versions
              \<longrightarrow> versions \<noteq> []))"
proof (intro conjI impI allI)
  show "counters_agree (NewVersion versionInfo time)"
    by (rule counters_agree_NewVersion)
next
  assume "counters_agree parent
        \<and> VersionInfo_GatherDependencies lib fetch depth p parent alsoDev = Some tree"
  then show "counters_agree tree"
    unfolding VersionInfo_GatherDependencies_def by (blast intro: gather_edges_counters)
next
  assume run: "PackageInfo_GatherDependencies lib fetch db depth package versionRaw
      = Some (Inr resolved)"
  then obtain root tree where
    "gather_edges lib fetch depth (dep_edges root False)
       (NewVersion root (time_at (PackageInfo_Time package) (VersionInfo_Version root)))
      = Some tree"
    and vulns: "GatherVulnerabilities lib db tree = Inr resolved"
    by (auto simp: PackageInfo_GatherDependencies_def VersionInfo_GatherDependencies_def
        split: option.splits sum.splits)
  then have "counters_agree tree"
    using gather_edges_counters counters_agree_NewVersion by blast
  then show "counters_agree resolved"
    using vulns by (rule counters_agree_GatherVulnerabilities)
next
  assume inv: "counters_agree v"
  then show "Packages (Version_Stats v)
      = 1 + int (card (dom (map_of (Version_Dependencies v))))"
    by (simp add: counters_agree_def card_dom_map_of)
  from inv show "Stats_Versions (Version_Stats v)
            = 1 + int (\<Sum>name\<in>dom (map_of (Version_Dependencies v)).
                         length (the (map_of (Version_Dependencies v) name)))"
    by (simp add: counters_agree_def sum_dom_map_of)
next
  fix name versions
  assume "counters_agree v" and "map_of (Version_Dependencies v) name = Some versions"
  then show "versions \<noteq> []"
    by (auto simp: counters_agree_def dest!: map_of_SomeD)
qed

text \<open>On the sample registry the tree of \<open>app\<close> has 3 names and 4 version strings.\<close>

theorem resolved_tree_counters_witness:
  "counters_agree sample_start
   \<and> VersionInfo_GatherDependencies plain_semver sample_fetch 3 sample_app_info sample_start False
       = Some sample_tree
   \<and> counters_agree sample_tree
   \<and> Packages (Version_Stats sample_tree) = 4
   \<and> Stats_Versions (Version_Stats sample_tree) = 5
   \<and> card (dom (map_of (Version_Dependencies sample_tree))) = 3
   \<and> (\<Sum>name\<in>dom (map_of (Version_Dependencies sample_tree)).
         length (the (map_of (Version_Dependencies sample_tree) name))) = 4
   \<and> (\<exists>resolved. PackageInfo_GatherDependencies plain_semver sample_fetch empty_db 3 sample_app
          ''1.0.0'' = Some (Inr resolved) \<and> counters_agree resolved)"
proof -
  note inst = resolved_tree_counters [where versionInfo = sample_app_info and time = 0
      and parent = sample_start and lib = plain_semver and fetch = sample_fetch and depth = 3
      and p = sample_app_info and alsoDev = False and tree = sample_tree and v = sample_tree
      and db = empty_db and package = sample_app and versionRaw = "''1.0.0''"
      and resolved = sample_tree]
  have start: "counters_agree sample_start"
    using inst by (simp add: sample_start_def)
  have tree: "counters_agree sample_tree"
    using inst start sample_run by blast
  have p: "Packages (Version_Stats sample_tree) = 4"
    and v: "Stats_Versions (Version_Stats sample_tree) = 5"
    by (simp_all add: sample_tree_def)
  have c: "card (dom (map_of (Version_Dependencies sample_tree))) = 3"
    using inst tree p by simp
  have s: "(\<Sum>name\<in>dom (map_of (Version_Dependencies sample_tree)).
         length (the (map_of (Version_Dependencies sample_tree) name))) = 4"
  proof -
    from inst tree v
    have "5 = 1 + int (\<Sum>name\<in>dom (map_of (Version_Dependencies sample_tree)).
                         length (the (map_of (Version_Dependencies sample_tree) name)))"
      by metis
    then show ?thesis by linarith
  qed
  have full: "PackageInfo_GatherDependencies plain_semver sample_fetch empty_db 3 sample_app
          ''1.0.0'' = Some (Inr sample_tree)"
    by code_simp
  with inst have "counters_agree sample_tree" by blast
  with full have r: "\<exists>resolved. PackageInfo_GatherDependencies plain_semver sample_fetch empty_db 3
      sample_app ''1.0.0'' = Some (Inr resolved) \<and> counters_agree resolved"
    by blast
  from start sample_run tree p v c s r show ?thesis by simp
qed

section \<open>The test for an already recorded version\<close>

lemma HasMatchingVersion_iff:
  "HasMatchingVersion lib versions constraint \<longleftrightarrow>
     (\<exists>vRaw\<in>set versions. satisfies lib constraint vRaw)"
  by (induction versions) (auto simp: satisfies_def split: option.splits)

lemma process_edge_covered:
  "selects lib fetch name constraintRaw constraint childVersion \<Longrightarrow>
   map_of (Version_Dependencies parent) name = Some versions \<Longrightarrow>
   HasMatchingVersion lib versions constraint \<Longrightarrow>
   process_edge lib fetch parent (name, constraintRaw) = Skipped parent"
  by (auto simp: selects_def process_edge_def)

lemma process_edge_new_version:
  "selects lib fetch name constraintRaw constraint childVersion \<Longrightarrow>
   map_of (Version_Dependencies parent) name = Some versions \<Longrightarrow>
   \<not> HasMatchingVersion lib versions constraint \<Longrightarrow>
   process_edge lib fetch parent (name, constraintRaw)
     = Gathered childVersion
         (merge_child childVersion
            (parent\<lparr>Version_Dependencies :=
               AList.update name (versions @ [VersionInfo_Version childVersion])
                 (Version_Dependencies parent)\<rparr>))"
  by (auto simp: selects_def process_edge_def)

lemma process_edge_new_name:
  "selects lib fetch name constraintRaw constraint childVersion \<Longrightarrow>
   map_of (Version_Dependencies parent) name = None \<Longrightarrow>
   process_edge lib fetch parent (name, constraintRaw)
     = Gathered childVersion
         (merge_child childVersion
            (parent\<lparr>Version_Dependencies :=
               AList.update name [VersionInfo_Version childVersion]
                 (Version_Dependencies parent),
             Version_Stats := (Version_Stats parent)
               \<lparr>Packages := Packages (Version_Stats parent) + 1\<rparr>\<rparr>))"
  by (auto simp: selects_def process_edge_def)

lemma gather_edges_Gathered:
  "process_edge lib fetch parent edge = Gathered childVersion parent' \<Longrightarrow>
   gather_edges lib fetch (Suc depth) (edge # edges) parent
     = (case gather_edges lib fetch depth (dep_edges childVersion False) parent' of
          None \<Rightarrow> None
        | Some tree \<Rightarrow> gather_edges lib fetch (Suc depth) edges tree)"
  by simp

lemma fold_MaxVersion_step_entry:
  "(\<forall>m. fst acc = Some m \<longrightarrow> (\<exists>k. (k, snd acc) \<in> S \<and> satisfies lib c k))
   \<Longrightarrow> fst (fold (MaxVersion_step lib c) xs acc) = Some m
   \<Longrightarrow> \<exists>k. (k, snd (fold (MaxVersion_step lib c) xs acc)) \<in> S \<union> set xs \<and> satisfies lib c k"
proof (induction xs arbitrary: acc S)
  case Nil
  then show ?case by simp
next
  case (Cons x xs)
  let ?acc = "MaxVersion_step lib c x acc"
  have "\<forall>m. fst ?acc = Some m \<longrightarrow> (\<exists>k. (k, snd ?acc) \<in> insert x S \<and> satisfies lib c k)"
    using Cons.prems(1)
    by (cases x) (auto simp: MaxVersion_step_def satisfies_def split: option.splits if_splits)
  from Cons.IH [OF this] Cons.prems(2) show ?case by simp
qed

lemma MaxVersion_selected_entry:
  assumes "MaxVersion lib p constraintRaw = Inr info"
    and "semver_NewConstraint lib constraintRaw = Inr c"
  shows "\<exists>k. (k, info) \<in> set (PackageInfo_Versions p) \<and> satisfies lib c k"
proof -
  let ?r = "fold (MaxVersion_step lib c) (PackageInfo_Versions p) (None, zero_VersionInfo)"
  from assms obtain m where "fst ?r = Some m" and "snd ?r = info"
    by (auto simp: MaxVersion_def split: prod.splits option.splits)
  with fold_MaxVersion_step_entry [of "(None, zero_VersionInfo)" "{}" lib c
      "PackageInfo_Versions p" m]
  show ?thesis by simp
qed

lemma selected_version_satisfies:
  assumes sel: "selects lib fetch name constraintRaw constraint childVersion"
    and fetched: "fetch name = Inr packageInfo"
    and keyed: "keyed_by_version packageInfo"
  shows "satisfies lib constraint (VersionInfo_Version childVersion)"
proof -
  from sel fetched have mv: "MaxVersion lib packageInfo constraintRaw = Inr childVersion"
    and nc: "semver_NewConstraint lib constraintRaw = Inr constraint"
    by (auto simp: selects_def)
  from MaxVersion_selected_entry [OF mv nc]
  obtain k where "(k, childVersion) \<in> set (PackageInfo_Versions packageInfo)"
    and "satisfies lib constraint k"
    by blast
  with keyed show ?thesis by (auto simp: keyed_by_version_def)
qed

lemma appended_version_new:
  assumes "satisfies lib constraint v" and "\<not> HasMatchingVersion lib versions constraint"
  shows "v \<notin> set versions"
  using assms by (auto simp: HasMatchingVersion_iff)

lemma second_disjoint_range:
  assumes sel1: "selects lib fetch name constraintRaw constraint childVersion"
    and sel2: "selects lib fetch name otherRaw other otherVersion"
    and fetched: "fetch name = Inr packageInfo"
    and keyed: "keyed_by_version packageInfo"
    and disj: "disjoint_ranges lib constraint other"
    and recorded: "map_of (Version_Dependencies later) name
        = Some [VersionInfo_Version childVersion]"
  shows "process_edge lib fetch later (name, otherRaw)
      = Gathered otherVersion
          (merge_child otherVersion
             (later\<lparr>Version_Dependencies :=
                AList.update name
                  ([VersionInfo_Version childVersion] @ [VersionInfo_Version otherVersion])
                  (Version_Dependencies later)\<rparr>))"
    and "VersionInfo_Version childVersion \<noteq> VersionInfo_Version otherVersion"
proof -
  have s1: "satisfies lib constraint (VersionInfo_Version childVersion)"
    using sel1 fetched keyed by (rule selected_version_satisfies)
  have s2: "satisfies lib other (VersionInfo_Version otherVersion)"
    using sel2 fetched keyed by (rule selected_version_satisfies)
  from s1 disj have n: "\<not> satisfies lib other (VersionInfo_Version childVersion)"
    by (auto simp: disjoint_ranges_def)
  then have "\<not> HasMatchingVersion lib [VersionInfo_Version childVersion] other"
    by (simp add: HasMatchingVersion_iff)
  from process_edge_new_version [OF sel2 recorded this]
  show "process_edge lib fetch later (name, otherRaw)
      = Gathered otherVersion
          (merge_child otherVersion
             (later\<lparr>Version_Dependencies :=
                AList.update name
                  ([VersionInfo_Version childVersion] @ [VersionInfo_Version otherVersion])
                  (Version_Dependencies later)\<rparr>))" .
  from s2 n show "VersionInfo_Version childVersion \<noteq> VersionInfo_Version otherVersion"
    by auto
qed

text \<open>
  Claim C5, as the code has it. In a round that reaches the test with the
  selected \<open>childVersion\<close>: when the name has recorded versions and one of them
  parses and satisfies the range, the tree is unchanged and nothing is recursed
  into; when the name has recorded versions and none does, the child's version
  string is appended to the name's list, the package counter stays, the version
  counter and the file and disk statistics take the child's share, and the
  child's own dependencies are gathered before the remaining ones; when the name
  is new, its list is created with the child's version and the package counter
  grows by one as well. The string that is recorded is the \<open>Version\<close> field of
  the selected entry, while the selection tests the key of the entry. For a
  package that stores every version under its own version string the recorded
  string satisfies the range, so it is not among recorded versions of which none
  satisfies it, and a second range disjoint from the first gives a second entry
  different from the first.
\<close>

theorem dependency_edge_dedup:
  assumes sel: "selects lib fetch name constraintRaw constraint childVersion"
  shows
   "(HasMatchingVersion lib versions constraint \<longleftrightarrow>
       (\<exists>vRaw\<in>set versions. satisfies lib constraint vRaw))
    \<and> (map_of (Version_Dependencies parent) name = Some versions
         \<and> HasMatchingVersion lib versions constraint \<longrightarrow>
        process_edge lib fetch parent (name, constraintRaw) = Skipped parent
        \<and> gather_edges lib fetch depth ((name, constraintRaw) # edges) parent
            = gather_edges lib fetch depth edges parent)
    \<and> (map_of (Version_Dependencies parent) name = Some versions
         \<and> \<not> HasMatchingVersion lib versions constraint
         \<and> added = merge_child childVersion
              (parent\<lparr>Version_Dependencies :=
                 AList.update name (versions @ [VersionInfo_Version childVersion])
                   (Version_Dependencies parent)\<rparr>) \<longrightarrow>
        process_edge lib fetch parent (name, constraintRaw) = Gathered childVersion added
        \<and> map_of (Version_Dependencies added) name
            = Some (versions @ [VersionInfo_Version childVersion])
        \<and> Packages (Version_Stats added) = Packages (Version_Stats parent)
        \<and> Stats_Versions (Version_Stats added) = Stats_Versions (Version_Stats parent) + 1
        \<and> Files (Version_Stats added)
            = Files (Version_Stats parent) + FileCount (VersionInfo_Dist childVersion)
        \<and> DiskSpace (Version_Stats added)
            = DiskSpace (Version_Stats parent) + UnpackedSize (VersionInfo_Dist childVersion)
        \<and> gather_edges lib fetch (Suc depth) ((name, constraintRaw) # edges) parent
            = (case gather_edges lib fetch depth (dep_edges childVersion False) added of
                 None \<Rightarrow> None
               | Some tree \<Rightarrow> gather_edges lib fetch (Suc depth) edges tree))
    \<and> (map_of (Version_Dependencies parent) name = None
         \<and> created = merge_child childVersion
              (parent\<lparr>Version_Dependencies :=
                 AList.update name [VersionInfo_Version childVersion]
                   (Version_Dependencies parent),
               Version_Stats := (Version_Stats parent)
                 \<lparr>Packages := Packages (Version_Stats parent) + 1\<rparr>\<rparr>) \<longrightarrow>
        process_edge lib fetch parent (name, constraintRaw) = Gathered childVersion created
        \<and> map_of (Version_Dependencies created) name = Some [VersionInfo_Version childVersion]
        \<and> Packages (Version_Stats created) = Packages (Version_Stats parent) + 1
        \<and> Stats_Versions (Version_Stats created) = Stats_Versions (Version_Stats parent) + 1
        \<and> Files (Version_Stats created)
            = Files (Version_Stats parent) + FileCount (VersionInfo_Dist childVersion)
        \<and> DiskSpace (Version_Stats created)
            = DiskSpace (Version_Stats parent) + UnpackedSize (VersionInfo_Dist childVersion)
        \<and> gather_edges lib fetch (Suc depth) ((name, constraintRaw) # edges) parent
            = (case gather_edges lib fetch depth (dep_edges childVersion False) created of
                 None \<Rightarrow> None
               | Some tree \<Rightarrow> gather_edges lib fetch (Suc depth) edges tree))
    \<and> (fetch name = Inr packageInfo \<and> keyed_by_version packageInfo \<longrightarrow>
        satisfies lib constraint (VersionInfo_Version childVersion))
    \<and> (fetch name = Inr packageInfo \<and> keyed_by_version packageInfo
         \<and> \<not> HasMatchingVersion lib versions constraint \<longrightarrow>
        VersionInfo_Version childVersion \<notin> set versions)
    \<and> (fetch name = Inr packageInfo \<and> keyed_by_version packageInfo
         \<and> selects lib fetch name otherRaw other otherVersion
         \<and> disjoint_ranges lib constraint other
         \<and> map_of (Version_Dependencies later) name
              = Some [VersionInfo_Version childVersion] \<longrightarrow>
        process_edge lib fetch later (name, otherRaw)
          = Gathered otherVersion
              (merge_child otherVersion
                 (later\<lparr>Version_Dependencies :=
                    AList.update name
                      ([VersionInfo_Version childVersion] @ [VersionInfo_Version otherVersion])
                      (Version_Dependencies later)\<rparr>))
        \<and> VersionInfo_Version childVersion \<noteq> VersionInfo_Version otherVersion)"
proof (intro conjI impI)
  show "HasMatchingVersion lib versions constraint \<longleftrightarrow>
       (\<exists>vRaw\<in>set versions. satisfies lib constraint vRaw)"
    by (rule HasMatchingVersion_iff)
next
  assume a: "map_of (Version_Dependencies parent) name = Some versions
         \<and> HasMatchingVersion lib versions constraint"
  then show skip: "process_edge lib fetch parent (name, constraintRaw) = Skipped parent"
    using process_edge_covered [OF sel] by blast
  show "gather_edges lib fetch depth ((name, constraintRaw) # edges) parent
            = gather_edges lib fetch depth edges parent"
    using gather_edges_Skipped [OF skip] .
next
  assume a: "map_of (Version_Dependencies parent) name = Some versions
         \<and> \<not> HasMatchingVersion lib versions constraint
         \<and> added = merge_child childVersion
              (parent\<lparr>Version_Dependencies :=
                 AList.update name (versions @ [VersionInfo_Version childVersion])
                   (Version_Dependencies parent)\<rparr>)"
  then show step: "process_edge lib fetch parent (name, constraintRaw)
      = Gathered childVersion added"
    using process_edge_new_version [OF sel] by blast
  from a show "map_of (Version_Dependencies added) name
            = Some (versions @ [VersionInfo_Version childVersion])"
    by (simp add: merge_child_fields update_conv')
  from a show "Packages (Version_Stats added) = Packages (Version_Stats parent)"
    by (simp add: merge_child_fields)
  from a show "Stats_Versions (Version_Stats added) = Stats_Versions (Version_Stats parent) + 1"
    by (simp add: merge_child_fields)
  from a show "Files (Version_Stats added)
            = Files (Version_Stats parent) + FileCount (VersionInfo_Dist childVersion)"
    by (simp add: merge_child_fields)
  from a show "DiskSpace (Version_Stats added)
            = DiskSpace (Version_Stats parent) + UnpackedSize (VersionInfo_Dist childVersion)"
    by (simp add: merge_child_fields)
  show "gather_edges lib fetch (Suc depth) ((name, constraintRaw) # edges) parent
            = (case gather_edges lib fetch depth (dep_edges childVersion False) added of
                 None \<Rightarrow> None
               | Some tree \<Rightarrow> gather_edges lib fetch (Suc depth) edges tree)"
    using gather_edges_Gathered [OF step] .
next
  assume a: "map_of (Version_Dependencies parent) name = None
         \<and> created = merge_child childVersion
              (parent\<lparr>Version_Dependencies :=
                 AList.update name [VersionInfo_Version childVersion]
                   (Version_Dependencies parent),
               Version_Stats := (Version_Stats parent)
                 \<lparr>Packages := Packages (Version_Stats parent) + 1\<rparr>\<rparr>)"
  then show step: "process_edge lib fetch parent (name, constraintRaw)
      = Gathered childVersion created"
    using process_edge_new_name [OF sel] by blast
  from a show "map_of (Version_Dependencies created) name
      = Some [VersionInfo_Version childVersion]"
    by (simp add: merge_child_fields update_conv')
  from a show "Packages (Version_Stats created) = Packages (Version_Stats parent) + 1"
    by (simp add: merge_child_fields)
  from a show "Stats_Versions (Version_Stats created)
      = Stats_Versions (Version_Stats parent) + 1"
    by (simp add: merge_child_fields)
  from a show "Files (Version_Stats created)
            = Files (Version_Stats parent) + FileCount (VersionInfo_Dist childVersion)"
    by (simp add: merge_child_fields)
  from a show "DiskSpace (Version_Stats created)
            = DiskSpace (Version_Stats parent) + UnpackedSize (VersionInfo_Dist childVersion)"
    by (simp add: merge_child_fields)
  show "gather_edges lib fetch (Suc depth) ((name, constraintRaw) # edges) parent
            = (case gather_edges lib fetch depth (dep_edges childVersion False) created of
                 None \<Rightarrow> None
               | Some tree \<Rightarrow> gather_edges lib fetch (Suc depth) edges tree)"
    using gather_edges_Gathered [OF step] .
next
  assume "fetch name = Inr packageInfo \<and> keyed_by_version packageInfo"
  then show "satisfies lib constraint (VersionInfo_Version childVersion)"
    using selected_version_satisfies [OF sel] by blast
next
  assume a: "fetch name = Inr packageInfo \<and> keyed_by_version packageInfo
         \<and> \<not> HasMatchingVersion lib versions constraint"
  then have "satisfies lib constraint (VersionInfo_Version childVersion)"
    using selected_version_satisfies [OF sel] by blast
  with a show "VersionInfo_Version childVersion \<notin> set versions"
    using appended_version_new [of lib constraint "VersionInfo_Version childVersion" versions]
    by blast
next
  assume a: "fetch name = Inr packageInfo \<and> keyed_by_version packageInfo
         \<and> selects lib fetch name otherRaw other otherVersion
         \<and> disjoint_ranges lib constraint other
         \<and> map_of (Version_Dependencies later) name
              = Some [VersionInfo_Version childVersion]"
  then have sel2: "selects lib fetch name otherRaw other otherVersion"
    and fetched: "fetch name = Inr packageInfo"
    and keyed: "keyed_by_version packageInfo"
    and disj: "disjoint_ranges lib constraint other"
    and recorded: "map_of (Version_Dependencies later) name
        = Some [VersionInfo_Version childVersion]"
    by blast+
  show "process_edge lib fetch later (name, otherRaw)
          = Gathered otherVersion
              (merge_child otherVersion
                 (later\<lparr>Version_Dependencies :=
                    AList.update name
                      ([VersionInfo_Version childVersion] @ [VersionInfo_Version otherVersion])
                      (Version_Dependencies later)\<rparr>))"
    using sel sel2 fetched keyed disj recorded by (rule second_disjoint_range(1))
  show "VersionInfo_Version childVersion \<noteq> VersionInfo_Version otherVersion"
    using sel sel2 fetched keyed disj recorded by (rule second_disjoint_range(2))
qed

text \<open>
  The claim as the specification words it fails for a package whose entries are
  stored under keys other than their \<open>Version\<close> fields: here the two disjoint
  ranges select the keys 1.5.0 and 2.1.0, and the list holds the same string
  twice.
\<close>

theorem mislabelled_versions_counterexample:
  "map_option Version_Dependencies
     (gather_edges plain_semver mislabelled_fetch 1
        [(''m'', ''<2.0.0''), (''m'', ''>=2.0.0'')] sample_start)
     = Some [(''m'', [''0.0.1'', ''0.0.1''])]
   \<and> disjoint_ranges plain_semver (OpLess, 2, 0, 0) (OpGreaterEq, 2, 0, 0)
   \<and> semver_NewConstraint plain_semver ''<2.0.0'' = Inr (OpLess, 2, 0, 0)
   \<and> semver_NewConstraint plain_semver ''>=2.0.0'' = Inr (OpGreaterEq, 2, 0, 0)"
proof -
  have run: "map_option Version_Dependencies
     (gather_edges plain_semver mislabelled_fetch 1
        [(''m'', ''<2.0.0''), (''m'', ''>=2.0.0'')] sample_start)
     = Some [(''m'', [''0.0.1'', ''0.0.1''])]"
    by code_simp
  have d: "disjoint_ranges plain_semver (OpLess, 2, 0, 0) (OpGreaterEq, 2, 0, 0)"
    by (auto simp: disjoint_ranges_def satisfies_def plain_semver_def plain_check_def
        split: option.splits)
  have c1: "semver_NewConstraint plain_semver ''<2.0.0'' = Inr (OpLess, 2, 0, 0)"
    by code_simp
  have c2: "semver_NewConstraint plain_semver ''>=2.0.0'' = Inr (OpGreaterEq, 2, 0, 0)"
    by code_simp
  from run d c1 c2 show ?thesis by blast
qed

lemma sample_selects:
  "selects plain_semver sample_fetch ''a'' ''<2.0.0'' (OpLess, 2, 0, 0) sample_a150"
  "selects plain_semver sample_fetch ''a'' ''>=2.0.0'' (OpGreaterEq, 2, 0, 0) sample_a210"
  "selects plain_semver sample_fetch ''a'' ''>=1.2.0'' (OpGreaterEq, 1, 2, 0) sample_a210"
proof -
  have f: "sample_fetch ''a'' = Inr sample_a" by code_simp
  have m1: "MaxVersion plain_semver sample_a ''<2.0.0'' = Inr sample_a150" by code_simp
  have m2: "MaxVersion plain_semver sample_a ''>=2.0.0'' = Inr sample_a210" by code_simp
  have m3: "MaxVersion plain_semver sample_a ''>=1.2.0'' = Inr sample_a210" by code_simp
  have c1: "semver_NewConstraint plain_semver ''<2.0.0'' = Inr (OpLess, 2, 0, 0)" by code_simp
  have c2: "semver_NewConstraint plain_semver ''>=2.0.0'' = Inr (OpGreaterEq, 2, 0, 0)"
    by code_simp
  have c3: "semver_NewConstraint plain_semver ''>=1.2.0'' = Inr (OpGreaterEq, 1, 2, 0)"
    by code_simp
  have p1: "MatchPlatform sample_a150 ''linux'' ''x64''" by code_simp
  have p2: "MatchPlatform sample_a210 ''linux'' ''x64''" by code_simp
  show "selects plain_semver sample_fetch ''a'' ''<2.0.0'' (OpLess, 2, 0, 0) sample_a150"
    unfolding selects_def using f m1 c1 p1 by blast
  show "selects plain_semver sample_fetch ''a'' ''>=2.0.0'' (OpGreaterEq, 2, 0, 0) sample_a210"
    unfolding selects_def using f m2 c2 p2 by blast
  show "selects plain_semver sample_fetch ''a'' ''>=1.2.0'' (OpGreaterEq, 1, 2, 0) sample_a210"
    unfolding selects_def using f m3 c3 p2 by blast
qed

text \<open>
  On the sample registry, from the tree that \<open>NewVersion\<close> returns: \<open>a\<close> below
  2.0.0 creates the list with 1.5.0; in the tree so obtained \<open>a\<close> from 2.0.0 on
  finds no recorded version and appends 2.1.0; in that tree \<open>a\<close> from 1.2.0 on
  is covered by the recorded versions and adds nothing. The whole tree of \<open>app\<close>
  holds exactly these two versions of \<open>a\<close>.
\<close>

theorem dependency_edge_dedup_witness:
  "selects plain_semver sample_fetch ''a'' ''<2.0.0'' (OpLess, 2, 0, 0) sample_a150
   \<and> sample_fetch ''a'' = Inr sample_a
   \<and> keyed_by_version sample_a
   \<and> process_edge plain_semver sample_fetch sample_start (''a'', ''<2.0.0'')
       = Gathered sample_a150 sample_first
   \<and> map_of (Version_Dependencies sample_first) ''a'' = Some [''1.5.0'']
   \<and> Packages (Version_Stats sample_first) = 2
   \<and> Stats_Versions (Version_Stats sample_first) = 2
   \<and> satisfies plain_semver (OpLess, 2, 0, 0) ''1.5.0''
   \<and> selects plain_semver sample_fetch ''a'' ''>=2.0.0'' (OpGreaterEq, 2, 0, 0) sample_a210
   \<and> disjoint_ranges plain_semver (OpLess, 2, 0, 0) (OpGreaterEq, 2, 0, 0)
   \<and> \<not> HasMatchingVersion plain_semver [''1.5.0''] (OpGreaterEq, 2, 0, 0)
   \<and> process_edge plain_semver sample_fetch sample_first (''a'', ''>=2.0.0'')
       = Gathered sample_a210 sample_second
   \<and> map_of (Version_Dependencies sample_second) ''a'' = Some [''1.5.0'', ''2.1.0'']
   \<and> Packages (Version_Stats sample_second) = 2
   \<and> Stats_Versions (Version_Stats sample_second) = 3
   \<and> ''1.5.0'' \<noteq> ''2.1.0''
   \<and> selects plain_semver sample_fetch ''a'' ''>=1.2.0'' (OpGreaterEq, 1, 2, 0) sample_a210
   \<and> HasMatchingVersion plain_semver [''1.5.0'', ''2.1.0''] (OpGreaterEq, 1, 2, 0)
   \<and> process_edge plain_semver sample_fetch sample_second (''a'', ''>=1.2.0'')
       = Skipped sample_second
   \<and> VersionInfo_GatherDependencies plain_semver sample_fetch 3 sample_app_info sample_start False
       = Some sample_tree
   \<and> map_of (Version_Dependencies sample_tree) ''a'' = Some [''1.5.0'', ''2.1.0'']"
proof -
  have v: "VersionInfo_Version sample_a150 = ''1.5.0''" "VersionInfo_Version sample_a210 = ''2.1.0''"
    by code_simp+
  have f: "sample_fetch ''a'' = Inr sample_a" by code_simp
  have k: "keyed_by_version sample_a" by code_simp
  have s0: "map_of (Version_Dependencies sample_start) ''a'' = None"
    "Packages (Version_Stats sample_start) = 1"
    "Stats_Versions (Version_Stats sample_start) = 1"
    by (simp_all add: sample_start_def NewVersion_def Let_def)
  have d: "disjoint_ranges plain_semver (OpLess, 2, 0, 0) (OpGreaterEq, 2, 0, 0)"
    by (auto simp: disjoint_ranges_def satisfies_def plain_semver_def plain_check_def
        split: option.splits)
  have h1: "\<not> HasMatchingVersion plain_semver [''1.5.0''] (OpGreaterEq, 2, 0, 0)"
    by code_simp
  have h2: "HasMatchingVersion plain_semver [''1.5.0'', ''2.1.0''] (OpGreaterEq, 1, 2, 0)"
    by code_simp
  note first = dependency_edge_dedup [OF sample_selects(1), where parent = sample_start
      and created = sample_first and packageInfo = sample_a
      and otherRaw = "''>=2.0.0''" and other = "(OpGreaterEq, 2, 0, 0)"
      and otherVersion = sample_a210 and later = sample_first]
  have e1: "process_edge plain_semver sample_fetch sample_start (''a'', ''<2.0.0'')
       = Gathered sample_a150 sample_first"
    and m1: "map_of (Version_Dependencies sample_first) ''a'' = Some [''1.5.0'']"
    and p1: "Packages (Version_Stats sample_first) = 2"
    and n1: "Stats_Versions (Version_Stats sample_first) = 2"
    using first s0 v by (simp_all add: sample_first_def)
  have sat: "satisfies plain_semver (OpLess, 2, 0, 0) ''1.5.0''"
    using first f k v by simp
  have e2: "process_edge plain_semver sample_fetch sample_first (''a'', ''>=2.0.0'')
       = Gathered sample_a210 sample_second"
    and ne: "''1.5.0'' \<noteq> ''2.1.0''"
    using first f k d m1 v sample_selects(2) by (simp_all add: sample_second_def)
  note second = dependency_edge_dedup [OF sample_selects(2), where parent = sample_first
      and versions = "[''1.5.0'']" and added = sample_second]
  have m2: "map_of (Version_Dependencies sample_second) ''a'' = Some [''1.5.0'', ''2.1.0'']"
    and p2: "Packages (Version_Stats sample_second) = 2"
    and n2: "Stats_Versions (Version_Stats sample_second) = 3"
    using second m1 h1 v p1 n1 by (simp_all add: sample_second_def)
  have e3: "process_edge plain_semver sample_fetch sample_second (''a'', ''>=1.2.0'')
       = Skipped sample_second"
    using dependency_edge_dedup [OF sample_selects(3), where parent = sample_second
        and versions = "[''1.5.0'', ''2.1.0'']"] m2 h2
    by simp
  have tree: "map_of (Version_Dependencies sample_tree) ''a'' = Some [''1.5.0'', ''2.1.0'']"
    by (simp add: sample_tree_def)
  from sample_selects f k e1 m1 p1 n1 sat d h1 e2 m2 p2 n2 ne h2 e3 sample_run tree
  show ?thesis by blast
qed

section \<open>The histogram of publishers\<close>

lemma process_edge_Gathered_publishers:
  assumes "process_edge lib fetch parent edge = Gathered childVersion parent'"
  shows "Publishers parent'
     = AList.update (GetPublisher childVersion)
         ((case map_of (Publishers parent) (GetPublisher childVersion) of
             None \<Rightarrow> 0 | Some n \<Rightarrow> n) + 1)
         (Publishers parent)"
  using assms
  by (auto simp: process_edge_def Let_def merge_child_fields
      split: sum.splits option.splits if_splits)

lemma process_edge_Skipped_publishers:
  assumes "process_edge lib fetch parent edge = Skipped parent'"
  shows "Publishers parent' = Publishers parent"
  using assms
  by (auto simp: process_edge_def Let_def add_error_def
      split: sum.splits option.splits if_splits)

text \<open>
  Claim C9. \<open>NewVersion\<close> records the root's publisher only when that string
  is not empty. A round that gathers a child raises the count under the child's
  publisher string by one whatever that string is, the empty one included, and
  leaves the other counts; a round that gathers nothing leaves the histogram. On
  the sample registry, where three gathered versions carry no publisher, the
  tree of \<open>app\<close> holds the count 3 under the empty string.
\<close>

theorem publishers_asymmetry:
  "(GetPublisher versionInfo = [] \<longrightarrow> Publishers (NewVersion versionInfo time) = [])
   \<and> (GetPublisher versionInfo \<noteq> [] \<longrightarrow>
        Publishers (NewVersion versionInfo time) = [(GetPublisher versionInfo, 1)])
   \<and> (process_edge lib fetch parent edge = Gathered childVersion parent' \<longrightarrow>
        map_of (Publishers parent') (GetPublisher childVersion)
          = Some ((case map_of (Publishers parent) (GetPublisher childVersion) of
                     None \<Rightarrow> 0 | Some n \<Rightarrow> n) + 1)
        \<and> (\<forall>publisher. publisher \<noteq> GetPublisher childVersion \<longrightarrow>
              map_of (Publishers parent') publisher = map_of (Publishers parent) publisher))
   \<and> (process_edge lib fetch parent edge = Skipped skipped \<longrightarrow>
        Publishers skipped = Publishers parent)
   \<and> (\<exists>tree. VersionInfo_GatherDependencies plain_semver sample_fetch 3 sample_app_info
                 sample_start False = Some tree
          \<and> map_of (Publishers tree) [] = Some 3)"
proof (intro conjI impI allI)
  assume "GetPublisher versionInfo = []"
  then show "Publishers (NewVersion versionInfo time) = []"
    by (simp add: NewVersion_def Let_def)
next
  assume "GetPublisher versionInfo \<noteq> []"
  then show "Publishers (NewVersion versionInfo time) = [(GetPublisher versionInfo, 1)]"
    by (simp add: NewVersion_def Let_def)
next
  assume "process_edge lib fetch parent edge = Gathered childVersion parent'"
  then show "map_of (Publishers parent') (GetPublisher childVersion)
          = Some ((case map_of (Publishers parent) (GetPublisher childVersion) of
                     None \<Rightarrow> 0 | Some n \<Rightarrow> n) + 1)"
    by (simp add: process_edge_Gathered_publishers update_conv')
next
  fix publisher
  assume "process_edge lib fetch parent edge = Gathered childVersion parent'"
    and "publisher \<noteq> GetPublisher childVersion"
  then show "map_of (Publishers parent') publisher = map_of (Publishers parent) publisher"
    by (simp add: process_edge_Gathered_publishers update_conv')
next
  assume "process_edge lib fetch parent edge = Skipped skipped"
  then show "Publishers skipped = Publishers parent"
    by (rule process_edge_Skipped_publishers)
next
  have "map_of (Publishers sample_tree) [] = Some 3"
    by (simp add: sample_tree_def)
  with sample_run show "\<exists>tree. VersionInfo_GatherDependencies plain_semver sample_fetch 3
      sample_app_info sample_start False = Some tree \<and> map_of (Publishers tree) [] = Some 3"
    by blast
qed

text \<open>
  The root without a publisher starts with an empty histogram, the root published
  by \<open>alice\<close> with one entry; gathering the version 1.5.0 of \<open>a\<close>, which has no
  publisher, adds an entry under the empty string.
\<close>

theorem publishers_asymmetry_witness:
  "GetPublisher sample_a150 = []
   \<and> Publishers (NewVersion sample_a150 0) = []
   \<and> GetPublisher sample_app_info = ''alice''
   \<and> Publishers (NewVersion sample_app_info 0) = [(''alice'', 1)]
   \<and> (\<exists>created. process_edge plain_semver sample_fetch sample_start (''a'', ''<2.0.0'')
           = Gathered sample_a150 created
         \<and> map_of (Publishers created) [] = Some 1
         \<and> map_of (Publishers created) ''alice'' = Some 1)
   \<and> (\<exists>skipped. process_edge plain_semver sample_fetch sample_start (''win'', ''>=1.0.0'')
           = Skipped skipped
         \<and> Publishers skipped = [(''alice'', 1)])"
proof -
  have g1: "GetPublisher sample_a150 = []" by code_simp
  have g2: "GetPublisher sample_app_info = ''alice''" by code_simp
  have n1: "Publishers (NewVersion sample_a150 0) = []"
    using publishers_asymmetry [where versionInfo = sample_a150 and time = 0, THEN conjunct1] g1
    by simp
  have n2: "Publishers (NewVersion sample_app_info 0) = [(''alice'', 1)]"
    using publishers_asymmetry [where versionInfo = sample_app_info and time = 0,
        THEN conjunct2, THEN conjunct1] g2
    by simp
  have s0: "map_of (Version_Dependencies sample_start) ''a'' = None"
    by (simp add: sample_start_def NewVersion_def Let_def)
  note step = process_edge_new_name [OF sample_selects(1) s0]
  have p0: "Publishers sample_start = [(''alice'', 1)]"
    using n2 by (simp add: sample_start_def)
  have created: "\<exists>created. process_edge plain_semver sample_fetch sample_start (''a'', ''<2.0.0'')
           = Gathered sample_a150 created
         \<and> map_of (Publishers created) [] = Some 1
         \<and> map_of (Publishers created) ''alice'' = Some 1"
    using publishers_asymmetry [where lib = plain_semver and fetch = sample_fetch
        and parent = sample_start and edge = "(''a'', ''<2.0.0'')"
        and childVersion = sample_a150, THEN conjunct2, THEN conjunct2, THEN conjunct1]
      step g1 p0
    by simp
  have w: "process_edge plain_semver sample_fetch sample_start (''win'', ''>=1.0.0'')
      = Skipped sample_start"
    by code_simp
  have skipped: "\<exists>skipped. process_edge plain_semver sample_fetch sample_start
      (''win'', ''>=1.0.0'') = Skipped skipped \<and> Publishers skipped = [(''alice'', 1)]"
    using publishers_asymmetry [where lib = plain_semver and fetch = sample_fetch
        and parent = sample_start and edge = "(''win'', ''>=1.0.0'')"
        and skipped = sample_start, THEN conjunct2, THEN conjunct2, THEN conjunct2,
        THEN conjunct1] w p0
    by simp
  from g1 n1 g2 n2 created skipped show ?thesis by simp
qed

section \<open>Matching of vulnerabilities\<close>

lemma match_exprs_iff:
  "match_exprs lib depV exprs match0 \<longleftrightarrow>
     match0 \<or> (\<exists>expr\<in>set exprs. \<exists>c. semver_NewConstraint lib expr = Inr c \<and> Check lib c depV)"
  unfolding match_exprs_def
  by (induction exprs arbitrary: match0) (auto split: sum.splits)

lemma in_range_iff:
  "in_range lib expr depVersion \<longleftrightarrow>
     (\<exists>depV c. semver_NewVersion lib depVersion = Some depV
        \<and> semver_NewConstraint lib expr = Inr c \<and> Check lib c depV)"
  by (auto simp: in_range_def split: option.splits sum.splits)

lemma match_versions_iff:
  "match_versions lib depVersions exprs match0 \<longleftrightarrow>
     match0 \<or> (\<exists>depVersion\<in>set depVersions. \<exists>expr\<in>set exprs. in_range lib expr depVersion)"
  unfolding match_versions_def
proof (induction depVersions arbitrary: match0)
  case Nil
  show ?case by simp
next
  case (Cons depVersion depVersions)
  show ?case
  proof (cases "semver_NewVersion lib depVersion")
    case None
    then have "\<not> in_range lib expr depVersion" for expr
      by (simp add: in_range_def)
    with None show ?thesis by (simp add: Cons.IH)
  next
    case (Some depV)
    then have "in_range lib expr depVersion \<longleftrightarrow>
        (\<exists>c. semver_NewConstraint lib expr = Inr c \<and> Check lib c depV)" for expr
      by (simp add: in_range_iff)
    with Some show ?thesis
      by (simp add: Cons.IH match_exprs_iff)
  qed
qed

lemma vulnerability_matches_iff:
  "vulnerability_matches lib v vulnerability \<longleftrightarrow>
     (\<exists>depVersion\<in>set (installed_versions v (PackageName vulnerability)).
        \<exists>expr\<in>set (Vulnerable (Semver vulnerability)). in_range lib expr depVersion)"
  by (simp add: vulnerability_matches_def match_versions_iff)

lemma fold_append_filter:
  "fold (\<lambda>x acc. if P x then acc @ [x] else acc) xs acc0 = acc0 @ filter P xs"
  by (induction xs arbitrary: acc0) simp_all

lemma GatherVulnerabilities_Inr:
  assumes "db (VersionInfo_Name (Info v) # map fst (Version_Dependencies v)) = Inr rows"
  shows "GatherVulnerabilities lib db v
     = Inr (v\<lparr>Vulnerabilities := filter (vulnerability_matches lib v) rows,
               Version_Stats := (Version_Stats v)
                 \<lparr>Stats_VulnerabilityStats :=
                    GetVulnerabilityStats (filter (vulnerability_matches lib v) rows)\<rparr>\<rparr>)"
  using assms by (simp add: GatherVulnerabilities_def Let_def fold_append_filter)

text \<open>
  Claim C7, as the code has it. A row of the vulnerability table is matched
  exactly when one of the installed versions of its package (the root's own
  version for the root's name, the versions recorded under the name otherwise)
  parses and passes \<open>Check\<close> against one of its range expressions that parse;
  versions and expressions that do not parse contribute nothing. When the query
  succeeds, \<open>GatherVulnerabilities\<close> succeeds and stores exactly the matched
  rows, in the order of the query. The histogram is built from the stored rows
  one by one: a row of severity "low", "medium", "high" or "critical" raises the
  bucket of that severity by one and leaves the other three, and a row of any
  other severity leaves all four. So each bucket holds the number of stored rows
  of its severity, and the four together the number of stored rows whose
  severity is one of the four.
\<close>

lemma count_severity_cases:
  "Vulnerability_Severity x = Low \<Longrightarrow> count_severity x st = st\<lparr>LowCount := LowCount st + 1\<rparr>"
  "Vulnerability_Severity x = Medium \<Longrightarrow>
     count_severity x st = st\<lparr>MediumCount := MediumCount st + 1\<rparr>"
  "Vulnerability_Severity x = High \<Longrightarrow> count_severity x st = st\<lparr>HighCount := HighCount st + 1\<rparr>"
  "Vulnerability_Severity x = Critical \<Longrightarrow>
     count_severity x st = st\<lparr>CriticalCount := CriticalCount st + 1\<rparr>"
  "Vulnerability_Severity x \<notin> {Low, Medium, High, Critical} \<Longrightarrow> count_severity x st = st"
  by (simp_all add: count_severity_def Let_def severity_names_distinct)

lemma GetVulnerabilityStats_snoc:
  "GetVulnerabilityStats (xs @ [x]) = count_severity x (GetVulnerabilityStats xs)"
  by (simp add: GetVulnerabilityStats_def)

theorem vulnerability_correlation:
  "(vulnerability_matches lib v vulnerability \<longleftrightarrow>
      (\<exists>depVersion\<in>set (installed_versions v (PackageName vulnerability)).
         \<exists>expr\<in>set (Vulnerable (Semver vulnerability)). in_range lib expr depVersion))
   \<and> installed_versions v (VersionInfo_Name (Info v)) = [VersionInfo_Version (Info v)]
   \<and> (name \<noteq> VersionInfo_Name (Info v) \<longrightarrow>
        installed_versions v name
          = (case map_of (Version_Dependencies v) name of
               None \<Rightarrow> [] | Some versions \<Rightarrow> versions))
   \<and> (db (VersionInfo_Name (Info v) # map fst (Version_Dependencies v)) = Inr rows \<longrightarrow>
        (\<exists>v'. GatherVulnerabilities lib db v = Inr v'
           \<and> Vulnerabilities v' = filter (vulnerability_matches lib v) rows
           \<and> Stats_VulnerabilityStats (Version_Stats v')
               = GetVulnerabilityStats (Vulnerabilities v')
           \<and> LowCount (Stats_VulnerabilityStats (Version_Stats v'))
               = int (length (with_severity Low (Vulnerabilities v')))
           \<and> MediumCount (Stats_VulnerabilityStats (Version_Stats v'))
               = int (length (with_severity Medium (Vulnerabilities v')))
           \<and> HighCount (Stats_VulnerabilityStats (Version_Stats v'))
               = int (length (with_severity High (Vulnerabilities v')))
           \<and> CriticalCount (Stats_VulnerabilityStats (Version_Stats v'))
               = int (length (with_severity Critical (Vulnerabilities v')))
           \<and> bucket_total (Stats_VulnerabilityStats (Version_Stats v'))
               = int (length (filter
                   (\<lambda>x. Vulnerability_Severity x \<in> {Low, Medium, High, Critical})
                   (Vulnerabilities v')))))
   \<and> GetVulnerabilityStats (stored @ [x]) = count_severity x (GetVulnerabilityStats stored)
   \<and> (Vulnerability_Severity x = Low \<longrightarrow>
        count_severity x st = st\<lparr>LowCount := LowCount st + 1\<rparr>)
   \<and> (Vulnerability_Severity x = Medium \<longrightarrow>
        count_severity x st = st\<lparr>MediumCount := MediumCount st + 1\<rparr>)
   \<and> (Vulnerability_Severity x = High \<longrightarrow>
        count_severity x st = st\<lparr>HighCount := HighCount st + 1\<rparr>)
   \<and> (Vulnerability_Severity x = Critical \<longrightarrow>
        count_severity x st = st\<lparr>CriticalCount := CriticalCount st + 1\<rparr>)
   \<and> (Vulnerability_Severity x \<notin> {Low, Medium, High, Critical} \<longrightarrow>
        count_severity x st = st)"
proof (intro conjI impI)
  show "vulnerability_matches lib v vulnerability \<longleftrightarrow>
      (\<exists>depVersion\<in>set (installed_versions v (PackageName vulnerability)).
         \<exists>expr\<in>set (Vulnerable (Semver vulnerability)). in_range lib expr depVersion)"
    by (rule vulnerability_matches_iff)
next
  show "installed_versions v (VersionInfo_Name (Info v)) = [VersionInfo_Version (Info v)]"
    by (simp add: installed_versions_def)
next
  assume "name \<noteq> VersionInfo_Name (Info v)"
  then show "installed_versions v name
          = (case map_of (Version_Dependencies v) name of
               None \<Rightarrow> [] | Some versions \<Rightarrow> versions)"
    by (simp add: installed_versions_def)
next
  assume "db (VersionInfo_Name (Info v) # map fst (Version_Dependencies v)) = Inr rows"
  then show "\<exists>v'. GatherVulnerabilities lib db v = Inr v'
           \<and> Vulnerabilities v' = filter (vulnerability_matches lib v) rows
           \<and> Stats_VulnerabilityStats (Version_Stats v')
               = GetVulnerabilityStats (Vulnerabilities v')
           \<and> LowCount (Stats_VulnerabilityStats (Version_Stats v'))
               = int (length (with_severity Low (Vulnerabilities v')))
           \<and> MediumCount (Stats_VulnerabilityStats (Version_Stats v'))
               = int (length (with_severity Medium (Vulnerabilities v')))
           \<and> HighCount (Stats_VulnerabilityStats (Version_Stats v'))
               = int (length (with_severity High (Vulnerabilities v')))
           \<and> CriticalCount (Stats_VulnerabilityStats (Version_Stats v'))
               = int (length (with_severity Critical (Vulnerabilities v')))
           \<and> bucket_total (Stats_VulnerabilityStats (Version_Stats v'))
               = int (length (filter
                   (\<lambda>x. Vulnerability_Severity x \<in> {Low, Medium, High, Critical})
                   (Vulnerabilities v')))"
    by (simp add: GatherVulnerabilities_Inr GetVulnerabilityStats_counts bucket_total_eq)
next
  show "GetVulnerabilityStats (stored @ [x]) = count_severity x (GetVulnerabilityStats stored)"
    by (rule GetVulnerabilityStats_snoc)
qed (simp_all add: count_severity_cases)

text \<open>
  The claim as the specification words it counts every matched vulnerability in
  the bucket of its severity. Here a row of severity "moderate" is matched and
  stored, and all four buckets stay empty.
\<close>

theorem unbucketed_severity_counterexample:
  "vulnerability_matches plain_semver (sample_pad ''1.0.0'') moderate_row
   \<and> Vulnerability_Severity moderate_row = ''moderate''
   \<and> map_sum (\<lambda>err. err)
        (\<lambda>v'. (Vulnerabilities v', Stats_VulnerabilityStats (Version_Stats v')))
        (GatherVulnerabilities plain_semver moderate_db (sample_pad ''1.0.0''))
      = Inr ([moderate_row],
             \<lparr>LowCount = 0, MediumCount = 0, HighCount = 0, CriticalCount = 0\<rparr>)"
proof -
  have m: "vulnerability_matches plain_semver (sample_pad ''1.0.0'') moderate_row"
    by code_simp
  have s: "Vulnerability_Severity moderate_row = ''moderate''"
    by code_simp
  have rows: "moderate_db (VersionInfo_Name (Info (sample_pad ''1.0.0''))
      # map fst (Version_Dependencies (sample_pad ''1.0.0''))) = Inr [moderate_row]"
    by code_simp
  have zero: "GetVulnerabilityStats [moderate_row] = zero_VulnerabilityStats"
    by code_simp
  from GatherVulnerabilities_Inr [where db = moderate_db and v = "sample_pad ''1.0.0''"
      and rows = "[moderate_row]" and lib = plain_semver, OF rows] m zero
  have "map_sum (\<lambda>err. err)
        (\<lambda>v'. (Vulnerabilities v', Stats_VulnerabilityStats (Version_Stats v')))
        (GatherVulnerabilities plain_semver moderate_db (sample_pad ''1.0.0''))
      = Inr ([moderate_row],
             \<lparr>LowCount = 0, MediumCount = 0, HighCount = 0, CriticalCount = 0\<rparr>)"
    by (auto simp add: zero_VulnerabilityStats_def)
  with m s show ?thesis by blast
qed

text \<open>
  The range \<open><1.2.3\<close> matches an installed 1.0.0, not an installed 1.3.0, and
  not an installed version that does not parse. In the sample tree the row for
  \<open>a\<close> matches through its second expression, the first one not parsing, and
  the row for \<open>b\<close> does not match. A row of each of the four severities raises
  its bucket, a row of severity "moderate" none.
\<close>

theorem vulnerability_correlation_witness:
  "vulnerability_matches plain_semver (sample_pad ''1.0.0'')
     (sample_vulnerability ''left-pad'' [''<1.2.3''] High)
   \<and> in_range plain_semver ''<1.2.3'' ''1.0.0''
   \<and> \<not> vulnerability_matches plain_semver (sample_pad ''1.3.0'')
       (sample_vulnerability ''left-pad'' [''<1.2.3''] High)
   \<and> \<not> in_range plain_semver ''<1.2.3'' ''1.3.0''
   \<and> \<not> vulnerability_matches plain_semver (sample_pad ''next'')
       (sample_vulnerability ''left-pad'' [''<1.2.3''] High)
   \<and> installed_versions sample_tree ''app'' = [''1.0.0'']
   \<and> installed_versions sample_tree ''a'' = [''1.5.0'', ''2.1.0'']
   \<and> (\<exists>v'. GatherVulnerabilities plain_semver sample_db sample_tree = Inr v'
         \<and> Vulnerabilities v'
             = [sample_vulnerability ''a'' [''oops'', ''<1.6.0''] High,
                sample_vulnerability ''app'' [''<1.2.3''] Critical,
                sample_vulnerability ''c'' [''>=1.0.0''] ''moderate'']
         \<and> LowCount (Stats_VulnerabilityStats (Version_Stats v')) = 0
         \<and> MediumCount (Stats_VulnerabilityStats (Version_Stats v')) = 0
         \<and> HighCount (Stats_VulnerabilityStats (Version_Stats v')) = 1
         \<and> CriticalCount (Stats_VulnerabilityStats (Version_Stats v')) = 1)
   \<and> count_severity (sample_vulnerability ''a'' [] Low) zero_VulnerabilityStats
       = zero_VulnerabilityStats\<lparr>LowCount := 1\<rparr>
   \<and> count_severity (sample_vulnerability ''a'' [] Medium) zero_VulnerabilityStats
       = zero_VulnerabilityStats\<lparr>MediumCount := 1\<rparr>
   \<and> count_severity (sample_vulnerability ''a'' [] High) zero_VulnerabilityStats
       = zero_VulnerabilityStats\<lparr>HighCount := 1\<rparr>
   \<and> count_severity (sample_vulnerability ''a'' [] Critical) zero_VulnerabilityStats
       = zero_VulnerabilityStats\<lparr>CriticalCount := 1\<rparr>
   \<and> count_severity moderate_row zero_VulnerabilityStats = zero_VulnerabilityStats"
proof -
  let ?V = "sample_vulnerability ''left-pad'' [''<1.2.3''] High"
  have i: "installed_versions (sample_pad version) (PackageName ?V) = [version]" for version
    by (simp add: installed_versions_def sample_pad_def NewVersion_def Let_def
        sample_vulnerability_def sample_info_def)
  have e: "Vulnerable (Semver ?V) = [''<1.2.3'']"
    by (simp add: sample_vulnerability_def)
  have r1: "in_range plain_semver ''<1.2.3'' ''1.0.0''" by code_simp
  have r2: "\<not> in_range plain_semver ''<1.2.3'' ''1.3.0''" by code_simp
  have r3: "\<not> in_range plain_semver ''<1.2.3'' ''next''" by code_simp
  have m1: "vulnerability_matches plain_semver (sample_pad ''1.0.0'') ?V"
    using vulnerability_correlation [where lib = plain_semver and v = "sample_pad ''1.0.0''"
        and vulnerability = ?V, THEN conjunct1] i e r1
    by simp
  have m2: "\<not> vulnerability_matches plain_semver (sample_pad ''1.3.0'') ?V"
    using vulnerability_correlation [where lib = plain_semver and v = "sample_pad ''1.3.0''"
        and vulnerability = ?V, THEN conjunct1] i e r2
    by simp
  have m3: "\<not> vulnerability_matches plain_semver (sample_pad ''next'') ?V"
    using vulnerability_correlation [where lib = plain_semver and v = "sample_pad ''next''"
        and vulnerability = ?V, THEN conjunct1] i e r3
    by simp
  have n: "VersionInfo_Name (Info sample_tree) = ''app''"
    "VersionInfo_Version (Info sample_tree) = ''1.0.0''"
    by code_simp+
  have i1: "installed_versions sample_tree ''app'' = [''1.0.0'']"
    using vulnerability_correlation [where v = sample_tree, THEN conjunct2, THEN conjunct1] n
    by simp
  have i2: "installed_versions sample_tree ''a'' = [''1.5.0'', ''2.1.0'']"
    using vulnerability_correlation [where v = sample_tree and name = "''a''",
        THEN conjunct2, THEN conjunct2, THEN conjunct1] n
    by (simp add: sample_tree_def)
  have rows: "sample_db (VersionInfo_Name (Info sample_tree)
      # map fst (Version_Dependencies sample_tree)) = Inr sample_vulnerabilities"
    by code_simp
  have matched: "filter (vulnerability_matches plain_semver sample_tree) sample_vulnerabilities
      = [sample_vulnerability ''a'' [''oops'', ''<1.6.0''] High,
         sample_vulnerability ''app'' [''<1.2.3''] Critical,
         sample_vulnerability ''c'' [''>=1.0.0''] ''moderate'']"
    by code_simp
  have counts:
    "length (with_severity Low [sample_vulnerability ''a'' [''oops'', ''<1.6.0''] High,
         sample_vulnerability ''app'' [''<1.2.3''] Critical,
         sample_vulnerability ''c'' [''>=1.0.0''] ''moderate'']) = 0"
    "length (with_severity Medium [sample_vulnerability ''a'' [''oops'', ''<1.6.0''] High,
         sample_vulnerability ''app'' [''<1.2.3''] Critical,
         sample_vulnerability ''c'' [''>=1.0.0''] ''moderate'']) = 0"
    "length (with_severity High [sample_vulnerability ''a'' [''oops'', ''<1.6.0''] High,
         sample_vulnerability ''app'' [''<1.2.3''] Critical,
         sample_vulnerability ''c'' [''>=1.0.0''] ''moderate'']) = 1"
    "length (with_severity Critical [sample_vulnerability ''a'' [''oops'', ''<1.6.0''] High,
         sample_vulnerability ''app'' [''<1.2.3''] Critical,
         sample_vulnerability ''c'' [''>=1.0.0''] ''moderate'']) = 1"
    by code_simp+
  have g: "\<exists>v'. GatherVulnerabilities plain_semver sample_db sample_tree = Inr v'
         \<and> Vulnerabilities v'
             = [sample_vulnerability ''a'' [''oops'', ''<1.6.0''] High,
                sample_vulnerability ''app'' [''<1.2.3''] Critical,
                sample_vulnerability ''c'' [''>=1.0.0''] ''moderate'']
         \<and> LowCount (Stats_VulnerabilityStats (Version_Stats v')) = 0
         \<and> MediumCount (Stats_VulnerabilityStats (Version_Stats v')) = 0
         \<and> HighCount (Stats_VulnerabilityStats (Version_Stats v')) = 1
         \<and> CriticalCount (Stats_VulnerabilityStats (Version_Stats v')) = 1"
    using vulnerability_correlation [where lib = plain_semver and db = sample_db
        and v = sample_tree and rows = sample_vulnerabilities,
        THEN conjunct2, THEN conjunct2, THEN conjunct2, THEN conjunct1] rows matched counts
    by auto
  have s1: "count_severity (sample_vulnerability ''a'' [] Low) zero_VulnerabilityStats
       = zero_VulnerabilityStats\<lparr>LowCount := 1\<rparr>"
    using vulnerability_correlation [where st = zero_VulnerabilityStats
        and x = "sample_vulnerability ''a'' [] Low",
        THEN conjunct2, THEN conjunct2, THEN conjunct2, THEN conjunct2, THEN conjunct2,
        THEN conjunct1]
    by (simp add: sample_vulnerability_def zero_VulnerabilityStats_def)
  have s2: "count_severity (sample_vulnerability ''a'' [] Medium) zero_VulnerabilityStats
       = zero_VulnerabilityStats\<lparr>MediumCount := 1\<rparr>"
    using vulnerability_correlation [where st = zero_VulnerabilityStats
        and x = "sample_vulnerability ''a'' [] Medium",
        THEN conjunct2, THEN conjunct2, THEN conjunct2, THEN conjunct2, THEN conjunct2,
        THEN conjunct2, THEN conjunct1]
    by (simp add: sample_vulnerability_def zero_VulnerabilityStats_def)
  have s3: "count_severity (sample_vulnerability ''a'' [] High) zero_VulnerabilityStats
       = zero_VulnerabilityStats\<lparr>HighCount := 1\<rparr>"
    using vulnerability_correlation [where st = zero_VulnerabilityStats
        and x = "sample_vulnerability ''a'' [] High",
        THEN conjunct2, THEN conjunct2, THEN conjunct2, THEN conjunct2, THEN conjunct2,
        THEN conjunct2, THEN conjunct2,
        THEN conjunct1]
    by (simp add: sample_vulnerability_def zero_VulnerabilityStats_def)
  have s4: "count_severity (sample_vulnerability ''a'' [] Critical) zero_VulnerabilityStats
       = zero_VulnerabilityStats\<lparr>CriticalCount := 1\<rparr>"
    using vulnerability_correlation [where st = zero_VulnerabilityStats
        and x = "sample_vulnerability ''a'' [] Critical",
        THEN conjunct2, THEN conjunct2, THEN conjunct2, THEN conjunct2, THEN conjunct2,
        THEN conjunct2,
        THEN conjunct2, THEN conjunct2, THEN conjunct1]
    by (simp add: sample_vulnerability_def zero_VulnerabilityStats_def)
  have s5: "count_severity moderate_row zero_VulnerabilityStats = zero_VulnerabilityStats"
    using vulnerability_correlation [where st = zero_VulnerabilityStats
        and x = moderate_row,
        THEN conjunct2, THEN conjunct2, THEN conjunct2, THEN conjunct2, THEN conjunct2,
        THEN conjunct2, THEN conjunct2, THEN conjunct2,
        THEN conjunct2]
    by (simp add: moderate_row_def sample_vulnerability_def Low_def Medium_def High_def
        Critical_def)
  from m1 r1 m2 r2 m3 i1 i2 g s1 s2 s3 s4 s5 show ?thesis by blast
qed

section \<open>One computation per key\<close>

text \<open>
  Reading a list of goroutines by index, and the keys of the map after
  \<open>getOrCreate\<close>.
\<close>

lemma lookup_iff: "lookup xs i = Some x \<longleftrightarrow> i < length xs \<and> xs ! i = x"
  by (induction xs arbitrary: i) (auto split: nat.splits)

lemma lookup_update:
  "lookup (xs[i := v]) j = (if j = i \<and> i < length xs then Some v else lookup xs j)"
  by (induction xs arbitrary: i j) (auto split: nat.splits)

lemma lookup_Some_length: "lookup xs i = Some x \<Longrightarrow> i < length xs"
  by (simp add: lookup_iff)

lemma known_keys_getOrCreate:
  "getOrCreate fm h key = (fm', h', future, isNew)
   \<Longrightarrow> dom (map_of fm') = insert key (dom (map_of fm)) \<and> (isNew \<longleftrightarrow> key \<notin> dom (map_of fm))"
  by (auto simp add: getOrCreate_def update_conv' split: option.splits)

lemma step_new_key:
  assumes "pool_step s e = Some s'"
  shows "known_keys s \<subseteq> known_keys s' \<and> set (new_key s e) \<inter> known_keys s = {}
         \<and> set (new_key s e) \<subseteq> known_keys s' \<and> distinct (new_key s e)"
proof (cases e)
  case (GetOrCreate c)
  show ?thesis
  proof (cases "lookup (callers s) c")
    case None
    with assms GetOrCreate show ?thesis by simp
  next
    case (Some st)
    show ?thesis
    proof (cases st)
      case (Missed key)
      obtain fm h future isNew
        where g: "getOrCreate (futureMap_futures s) (heap s) key = (fm, h, future, isNew)"
        by (cases "getOrCreate (futureMap_futures s) (heap s) key") auto
      from assms GetOrCreate Some Missed g have "futureMap_futures s' = fm"
        by (auto split: if_splits)
      with known_keys_getOrCreate [OF g] GetOrCreate Some Missed g show ?thesis
        by (auto simp add: known_keys_def)
    qed (use assms GetOrCreate Some in simp_all)
  qed
qed (use assms in \<open>auto simp add: known_keys_def register_def
       split: option.splits caller.splits worker.splits if_splits nat.splits bool.splits\<close>)

lemma isNews_fresh:
  "distinct (isNews s es) \<and> set (isNews s es) \<inter> known_keys s = {}"
proof (induction es arbitrary: s)
  case Nil
  show ?case by simp
next
  case (Cons e es)
  show ?case
  proof (cases "pool_step s e")
    case None
    then show ?thesis by simp
  next
    case (Some s')
    from step_new_key [OF Some] Cons.IH [of s'] Some show ?thesis
      by auto
  qed
qed


lemma enqueuing_update_other:
  assumes "lookup cs c = Some st" "\<And>key future. v \<noteq> Enqueuing key future"
    "\<And>key future. st \<noteq> Enqueuing key future"
  shows "(lookup (cs[c := v]) c' = Some (Enqueuing key future))
         = (lookup cs c' = Some (Enqueuing key future))"
  using assms by (auto simp add: lookup_update)

lemma step_handed:
  assumes step: "pool_step s e = Some s'" and inv: "queue_inv s"
  shows "queue_inv s' \<and> distinct (handed s e) \<and> set (handed s e) \<subseteq> enqueuing s
         \<and> enqueuing s' \<union> - known_keys s' \<subseteq> (enqueuing s \<union> - known_keys s) - set (handed s e)"
proof (cases e)
  case (GetOrCreate c)
  show ?thesis
  proof (cases "lookup (callers s) c")
    case None
    with step GetOrCreate show ?thesis by simp
  next
    case (Some st)
    show ?thesis
    proof (cases st)
      case (Missed key)
      obtain fm h future isNew
        where g: "getOrCreate (futureMap_futures s) (heap s) key = (fm, h, future, isNew)"
        by (cases "getOrCreate (futureMap_futures s) (heap s) key") auto
      from step GetOrCreate Some Missed g
      have s': "s' = s\<lparr>futureMap_futures := fm, heap := h,
                  callers := (callers s)[c := if isNew then Enqueuing key future else Holding future]\<rparr>"
        by (auto split: if_splits)
      note k = known_keys_getOrCreate [OF g]
      have c: "c < length (callers s)" using Some by (simp add: lookup_iff)
      show ?thesis
      proof (cases isNew)
        case True
        with k have fresh: "key \<notin> known_keys s" by (simp add: known_keys_def)
        with inv have notq: "key \<notin> enqueuing s" by (auto simp add: queue_inv_def)
        have kk: "known_keys s' = insert key (known_keys s)"
          using k s' by (simp add: known_keys_def)
        have look: "\<And>c' key' f. (lookup (callers s') c' = Some (Enqueuing key' f))
                     = (c' = c \<and> key' = key \<and> f = future
                        \<or> lookup (callers s) c' = Some (Enqueuing key' f))"
          using s' True Some Missed c by (auto simp add: lookup_update)
        have en: "enqueuing s' = insert key (enqueuing s)"
          unfolding enqueuing_def look by blast
        have "queue_inv s'"
          unfolding queue_inv_def
        proof (intro conjI allI impI)
          show "enqueuing s' \<subseteq> known_keys s'"
            using inv en kk by (auto simp add: queue_inv_def)
        next
          fix a b key' f f'
          assume 1: "lookup (callers s') a = Some (Enqueuing key' f)"
            and 2: "lookup (callers s') b = Some (Enqueuing key' f')"
          show "a = b"
          proof (cases "key' = key")
            case True
            have "a = c"
            proof (rule ccontr)
              assume "a \<noteq> c"
              with 1 s' have "lookup (callers s) a = Some (Enqueuing key' f)"
                by (simp add: lookup_update)
              with True notq show False by (auto simp add: enqueuing_def)
            qed
            moreover have "b = c"
            proof (rule ccontr)
              assume "b \<noteq> c"
              with 2 s' have "lookup (callers s) b = Some (Enqueuing key' f')"
                by (simp add: lookup_update)
              with True notq show False by (auto simp add: enqueuing_def)
            qed
            ultimately show ?thesis by simp
          next
            case False
            with 1 2 s' \<open>isNew\<close> have "lookup (callers s) a = Some (Enqueuing key' f)"
              "lookup (callers s) b = Some (Enqueuing key' f')"
              by (auto simp add: lookup_update split: if_splits)
            with inv show ?thesis unfolding queue_inv_def by blast
          qed
        qed
        with en kk fresh GetOrCreate show ?thesis by auto
      next
        case False
        with k have kk: "known_keys s' = known_keys s"
          using s' by (auto simp add: known_keys_def)
        have look: "\<And>c' key' f. (lookup (callers s') c' = Some (Enqueuing key' f))
                     = (lookup (callers s) c' = Some (Enqueuing key' f))"
          using s' False Some Missed by (auto simp add: lookup_update)
        then have en: "enqueuing s' = enqueuing s" by (simp add: enqueuing_def)
        from inv look en kk have "queue_inv s'" by (simp add: queue_inv_def)
        with en kk GetOrCreate show ?thesis by auto
      qed
    qed (use step GetOrCreate Some in simp_all)
  qed
next
  case (Enqueue c w)
  from step Enqueue obtain key future
    where cs: "lookup (callers s) c = Some (Enqueuing key future)"
      and s': "s' = s\<lparr>callers := (callers s)[c := Holding future],
                      workers := (workers s)[w := Performing key]\<rparr>"
    by (simp split: option.splits caller.splits worker.splits)
  have c: "c < length (callers s)" using cs by (rule lookup_Some_length)
  have kk: "known_keys s' = known_keys s" using s' by (simp add: known_keys_def)
  have look: "\<And>c' key' f. (lookup (callers s') c' = Some (Enqueuing key' f))
               = (c' \<noteq> c \<and> lookup (callers s) c' = Some (Enqueuing key' f))"
    using s' c by (simp add: lookup_update)
  have only: "\<And>c' f. lookup (callers s) c' = Some (Enqueuing key f) \<Longrightarrow> c' = c"
    using inv cs unfolding queue_inv_def by blast
  have mem: "key \<in> enqueuing s" using cs unfolding enqueuing_def by blast
  have en: "enqueuing s' = enqueuing s - {key}"
  proof
    show "enqueuing s' \<subseteq> enqueuing s - {key}"
      unfolding enqueuing_def look using only by blast
    show "enqueuing s - {key} \<subseteq> enqueuing s'"
    proof
      fix x
      assume "x \<in> enqueuing s - {key}"
      then obtain c' f where x: "lookup (callers s) c' = Some (Enqueuing x f)" and "x \<noteq> key"
        unfolding enqueuing_def by blast
      with cs have "c' \<noteq> c" by auto
      with x show "x \<in> enqueuing s'" unfolding enqueuing_def look by blast
    qed
  qed
  have sub: "enqueuing s \<subseteq> known_keys s" using inv by (simp add: queue_inv_def)
  have "queue_inv s'"
    unfolding queue_inv_def
  proof (intro conjI allI impI)
    show "enqueuing s' \<subseteq> known_keys s'" using sub en kk by blast
  next
    fix a b key' f f'
    assume "lookup (callers s') a = Some (Enqueuing key' f)"
      and "lookup (callers s') b = Some (Enqueuing key' f')"
    then have "lookup (callers s) a = Some (Enqueuing key' f)"
      and "lookup (callers s) b = Some (Enqueuing key' f')"
      by (simp_all add: look)
    with inv show "a = b" unfolding queue_inv_def by blast
  qed
  moreover have "handed s e = [key]" using Enqueue cs by simp
  ultimately show ?thesis using en kk mem sub by auto
next
  case (Get c)
  from step Get have look: "\<And>c' key' f. (lookup (callers s') c' = Some (Enqueuing key' f))
               = (lookup (callers s) c' = Some (Enqueuing key' f))"
    and kk: "known_keys s' = known_keys s"
    by (auto simp add: lookup_update known_keys_def split: option.splits caller.splits if_splits)
  from look have en: "enqueuing s' = enqueuing s" by (simp add: enqueuing_def)
  from inv look en kk have "queue_inv s'" by (simp add: queue_inv_def)
  with en kk Get show ?thesis by auto
next
  case (Perform w r)
  from step Perform have look: "callers s' = callers s"
    and kk: "known_keys s' = known_keys s"
    by (auto simp add: known_keys_def split: option.splits worker.splits)
  from look have en: "enqueuing s' = enqueuing s" by (simp add: enqueuing_def)
  from inv look en kk have "queue_inv s'" by (simp add: queue_inv_def)
  with en kk Perform show ?thesis by auto
next
  case (Put w)
  from step Put have look: "callers s' = callers s"
    and kk: "known_keys s' = known_keys s"
    by (auto simp add: known_keys_def split: option.splits worker.splits)
  from look have en: "enqueuing s' = enqueuing s" by (simp add: enqueuing_def)
  from inv look en kk have "queue_inv s'" by (simp add: queue_inv_def)
  with en kk Put show ?thesis by auto
next
  case (Finish w)
  from step Finish have look: "callers s' = callers s"
    and kk: "known_keys s' = known_keys s"
    by (auto simp add: known_keys_def split: option.splits worker.splits if_splits)
  from look have en: "enqueuing s' = enqueuing s" by (simp add: enqueuing_def)
  from inv look en kk have "queue_inv s'" by (simp add: queue_inv_def)
  with en kk Finish show ?thesis by auto
next
  case (Resolve w)
  from step Resolve have look: "callers s' = callers s"
    and kk: "known_keys s' = known_keys s"
    by (auto simp add: known_keys_def split: option.splits worker.splits if_splits)
  from look have en: "enqueuing s' = enqueuing s" by (simp add: enqueuing_def)
  from inv look en kk have "queue_inv s'" by (simp add: queue_inv_def)
  with en kk Resolve show ?thesis by auto
next
  case (Send w c)
  from step Send have look: "\<And>c' key' f. (lookup (callers s') c' = Some (Enqueuing key' f))
               = (lookup (callers s) c' = Some (Enqueuing key' f))"
    and kk: "known_keys s' = known_keys s"
    by (auto simp add: lookup_update known_keys_def
        split: option.splits caller.splits worker.splits nat.splits if_splits)
  from look have en: "enqueuing s' = enqueuing s" by (simp add: enqueuing_def)
  from inv look en kk have "queue_inv s'" by (simp add: queue_inv_def)
  with en kk Send show ?thesis by auto
next
  case (Unlock w)
  from step Unlock have look: "callers s' = callers s"
    and kk: "known_keys s' = known_keys s"
    by (auto simp add: known_keys_def split: option.splits worker.splits nat.splits)
  from look have en: "enqueuing s' = enqueuing s" by (simp add: enqueuing_def)
  from inv look en kk have "queue_inv s'" by (simp add: queue_inv_def)
  with en kk Unlock show ?thesis by auto
next
  case (Await c)
  from step Await have look: "\<And>c' key' f. (lookup (callers s') c' = Some (Enqueuing key' f))
               = (lookup (callers s) c' = Some (Enqueuing key' f))"
    and kk: "known_keys s' = known_keys s"
    by (auto simp add: register_def lookup_update known_keys_def
        split: option.splits caller.splits if_splits)
  from look have en: "enqueuing s' = enqueuing s" by (simp add: enqueuing_def)
  from inv look en kk have "queue_inv s'" by (simp add: queue_inv_def)
  with en kk Await show ?thesis by auto
next
  case (AwaitTimeout c)
  from step AwaitTimeout have look: "\<And>c' key' f. (lookup (callers s') c' = Some (Enqueuing key' f))
               = (lookup (callers s) c' = Some (Enqueuing key' f))"
    and kk: "known_keys s' = known_keys s"
    by (auto simp add: register_def lookup_update known_keys_def
        split: option.splits caller.splits if_splits)
  from look have en: "enqueuing s' = enqueuing s" by (simp add: enqueuing_def)
  from inv look en kk have "queue_inv s'" by (simp add: queue_inv_def)
  with en kk AwaitTimeout show ?thesis by auto
next
  case (Timer c)
  from step Timer have look: "\<And>c' key' f. (lookup (callers s') c' = Some (Enqueuing key' f))
               = (lookup (callers s) c' = Some (Enqueuing key' f))"
    and kk: "known_keys s' = known_keys s"
    by (auto simp add: lookup_update known_keys_def
        split: option.splits caller.splits if_splits bool.splits)
  from look have en: "enqueuing s' = enqueuing s" by (simp add: enqueuing_def)
  from inv look en kk have "queue_inv s'" by (simp add: queue_inv_def)
  with en kk Timer show ?thesis by auto
next
  case (GiveUp c)
  from step GiveUp have look: "\<And>c' key' f. (lookup (callers s') c' = Some (Enqueuing key' f))
               = (lookup (callers s) c' = Some (Enqueuing key' f))"
    and kk: "known_keys s' = known_keys s"
    by (auto simp add: lookup_update known_keys_def
        split: option.splits caller.splits if_splits)
  from look have en: "enqueuing s' = enqueuing s" by (simp add: enqueuing_def)
  from inv look en kk have "queue_inv s'" by (simp add: queue_inv_def)
  with en kk GiveUp show ?thesis by auto
qed

lemma Performs_distinct:
  "queue_inv s \<Longrightarrow>
   distinct (Performs s es) \<and> set (Performs s es) \<subseteq> enqueuing s \<union> - known_keys s"
proof (induction es arbitrary: s)
  case Nil
  show ?case by simp
next
  case (Cons e es)
  show ?case
  proof (cases "pool_step s e")
    case None
    then show ?thesis by simp
  next
    case (Some s')
    from step_handed [OF Some Cons.prems] Cons.IH [of s'] Some show ?thesis
      by auto
  qed
qed

lemma lookup_map_Start: "lookup (map Start keys) c \<noteq> Some (Enqueuing key future)"
  by (induction keys arbitrary: c) (auto split: nat.splits)

lemma queue_inv_started: "queue_inv (started n keys)"
  by (simp add: queue_inv_def started_def enqueuing_def known_keys_def lookup_map_Start)

lemma one_Perform_per_key: "distinct (Performs (started n keys) es)"
  using Performs_distinct [OF queue_inv_started] by blast

lemma one_isNew_per_key: "distinct (isNews (started n keys) es)"
  using isNews_fresh by blast

text \<open>
  The three schedules, and the state that the first one ends in.
\<close>

lemma timer_fires_stuck:
  "pool_run (started 4 [key, key, key]) (timer_fires data) = Some (stuck key data)"
  by (simp add: started_def timer_fires_def stuck_def getOrCreate_def register_def
      NewFuture_def computed_def eval_nat_numeral)

lemma timer_fires_isNews: "isNews (started 4 [key, key, key]) (timer_fires data) = [key]"
  by (simp add: started_def timer_fires_def getOrCreate_def register_def
      NewFuture_def computed_def eval_nat_numeral)

lemma timer_fires_Performs: "Performs (started 4 [key, key, key]) (timer_fires data) = [key]"
  by (simp add: started_def timer_fires_def getOrCreate_def register_def
      NewFuture_def computed_def eval_nat_numeral)

lemma timer_waits_served:
  "pool_run (started 4 [key, key, key]) (timer_waits data) = Some (served key data)"
  by (simp add: started_def timer_waits_def served_def getOrCreate_def register_def
      NewFuture_def computed_def eval_nat_numeral)

lemma timer_early_expired:
  "pool_run (started 4 [key, key, key]) (timer_early data) = Some (expired key data)"
  by (simp add: started_def timer_early_def expired_def getOrCreate_def register_def
      NewFuture_def computed_def timed_out_def eval_nat_numeral)

lemma stuck_no_step: "pool_step (stuck key data) e = None"
  by (cases e) (simp_all add: stuck_def register_def split: nat.splits)

lemma stuck_no_run:
  "pool_run (stuck key data) es = (if es = [] then Some (stuck key data) else None)"
  by (cases es) (simp_all add: stuck_no_step)

text \<open>
  Claim C1. In every schedule of any number of callers and workers,
  \<open>getOrCreate\<close> returns \<open>isNew = true\<close> at most once for a key, and a key is
  handed to a worker, and so to \<open>Perform\<close>, at most once. That every caller's
  future resolves to the result does not hold. Three concurrent calls of
  \<open>ProcessKey\<close> for one uncached key: one call finds the key new, one \<open>Perform\<close>
  runs. When the timer of the first caller's \<open>AwaitTimeout\<close> fires just before
  \<open>Resolve\<close> takes the mutex of the future, the pool reaches the state \<open>stuck\<close>:
  the result is set in the future, but \<open>Resolve\<close> waits for a receiver of its one
  send while it holds both mutexes, the first caller waits for the mutex of the
  future, the second (which holds the same future) cannot enter \<open>AwaitTimeout\<close>,
  and the third cannot enter \<open>getOrCreate\<close>. No step is possible from there, so
  no caller ever returns, with the result or with the timeout. On the schedule
  where the timer does not fire, all three callers return the one result; on
  the schedule where the first caller has given up before \<open>Resolve\<close> reads \<open>n\<close>,
  it returns the timeout and the two others the one result.
\<close>

theorem timed_out_waiter_blocks_Resolve:
  "distinct (isNews (started n keys) es)
   \<and> distinct (Performs (started n keys) es)
   \<and> pool_run (started 4 [key, key, key]) (timer_fires data) = Some (stuck key data)
   \<and> isNews (started 4 [key, key, key]) (timer_fires data) = [key]
   \<and> Performs (started 4 [key, key, key]) (timer_fires data) = [key]
   \<and> (\<forall>e. pool_step (stuck key data) e = None)
   \<and> (\<forall>es. pool_run (stuck key data) es = (if es = [] then Some (stuck key data) else None))
   \<and> callers (stuck key data) = [TimedOut 0, Holding 0, Missed key]
   \<and> workers (stuck key data) = [Resolving 0 (computed data) 1, Idle, Idle, Idle]
   \<and> pool_run (started 4 [key, key, key]) (timer_waits data) = Some (served key data)
   \<and> callers (served key data)
       = [Returned (computed data), Returned (computed data), Returned (computed data)]
   \<and> pool_run (started 4 [key, key, key]) (timer_early data) = Some (expired key data)
   \<and> callers (expired key data)
       = [Returned timed_out, Returned (computed data), Returned (computed data)]"
proof -
  have "callers (stuck key data) = [TimedOut 0, Holding 0, Missed key]"
    and "workers (stuck key data) = [Resolving 0 (computed data) 1, Idle, Idle, Idle]"
    and "callers (served key data)
         = [Returned (computed data), Returned (computed data), Returned (computed data)]"
    and "callers (expired key data)
         = [Returned timed_out, Returned (computed data), Returned (computed data)]"
    by (simp_all add: stuck_def served_def expired_def)
  then show ?thesis
    using one_isNew_per_key [of n keys es] one_Perform_per_key [of n keys es]
      timer_fires_stuck [of key data] timer_fires_isNews [of key data]
      timer_fires_Performs [of key data] timer_waits_served [of key data]
      timer_early_expired [of key data] stuck_no_step [of key data] stuck_no_run [of key data]
    by simp
qed

end
